theory Spec2Isabelle
  imports Complex_Main "HOL-Library.Word"
begin

section \<open>Strings\<close>

text \<open>
  A JavaScript string is a sequence of code units. It is modelled as a \<^typ>\<open>string\<close>, one
  \<^typ>\<open>char\<close> per code unit, which covers the code units below 256. The white space of
  \<^verbatim>\<open>String.prototype.trim\<close> and of the regular expression class \<^verbatim>\<open>\s\<close> in that range is
  TAB, LF, VT, FF, CR, SPACE and NBSP.
\<close>

definition is_space :: "char \<Rightarrow> bool" where
  "is_space c \<longleftrightarrow>
     c = CHR 0x09 \<or> c = CHR 0x0A \<or> c = CHR 0x0B \<or> c = CHR 0x0C \<or> c = CHR 0x0D \<or>
     c = CHR 0x20 \<or> c = CHR 0xA0"

definition trim :: "string \<Rightarrow> string" where
  "trim s = rev (dropWhile is_space (rev (dropWhile is_space s)))"

text \<open>\<^verbatim>\<open>toLowerCase\<close> on code units below 256: the ASCII capitals and the Latin-1 capitals
  (0xC0 to 0xDE without the multiplication sign 0xD7) move up by 32.\<close>

definition lower_char :: "char \<Rightarrow> char" where
  "lower_char c =
     (let n = of_char c :: nat in
      if (65 \<le> n \<and> n \<le> 90) \<or> (192 \<le> n \<and> n \<le> 222 \<and> n \<noteq> 215) then char_of (n + 32) else c)"

definition toLowerCase :: "string \<Rightarrow> string" where
  "toLowerCase s = map lower_char s"

definition endsWith :: "string \<Rightarrow> string \<Rightarrow> bool" where
  "endsWith s suf \<longleftrightarrow> take (length suf) (rev s) = rev suf"

definition startsWith :: "string \<Rightarrow> string \<Rightarrow> bool" where
  "startsWith s pre \<longleftrightarrow> take (length pre) s = pre"

text \<open>\<^verbatim>\<open>Array.prototype.join\<close> on strings.\<close>

fun join :: "string \<Rightarrow> string list \<Rightarrow> string" where
  "join sep [] = []"
| "join sep [x] = x"
| "join sep (x # y # ys) = x @ sep @ join sep (y # ys)"

text \<open>The decimal numeral of a natural number, as a template literal prints \<^verbatim>\<open>Date.now()\<close>
  or a length.\<close>

definition digit_char :: "nat \<Rightarrow> char" where
  "digit_char d = char_of (48 + d)"

fun show_nat :: "nat \<Rightarrow> string" where
  "show_nat n = (if n < 10 then [digit_char n] else show_nat (n div 10) @ [digit_char (n mod 10)])"

declare show_nat.simps [simp del]

text \<open>A string option is truthy when it is present and not empty (\<^verbatim>\<open>undefined\<close> and
  \<^verbatim>\<open>''\<close> are falsy).\<close>

definition truthy :: "string option \<Rightarrow> bool" where
  "truthy v \<longleftrightarrow> (case v of None \<Rightarrow> False | Some s \<Rightarrow> s \<noteq> [])"

section \<open>Data model (types.ts)\<close>

datatype MessageSender = USER | MODEL | SYSTEM

record UrlContextMetadataItem =
  retrievedUrl :: string
  urlRetrievalStatus :: string

text \<open>The fields \<^verbatim>\<open>id\<close>, \<^verbatim>\<open>text\<close>, \<^verbatim>\<open>name\<close> of the source carry the prefix of their
  interface here; an optional field is an option; a \<^verbatim>\<open>Date\<close> is its time value.\<close>

record ChatMessage =
  msg_id :: string
  msg_text :: string
  msg_sender :: MessageSender
  msg_timestamp :: nat
  msg_isLoading :: "bool option"
  msg_urlContext :: "UrlContextMetadataItem list option"

record KnowledgeUrl =
  url :: string
  title :: string

record LocalDocument =
  doc_id :: string
  doc_name :: string
  content :: string

record URLGroup =
  group_id :: string
  group_name :: string
  urls :: "KnowledgeUrl list"
  documents :: "LocalDocument list"

section \<open>Application state (App)\<close>

record app_state =
  urlGroups :: "URLGroup list"
  activeUrlGroupId :: string
  chatMessages :: "ChatMessage list"
  isLoading :: bool
  isFetchingSuggestions :: bool
  initialQuerySuggestions :: "string list"
  isProcessingDoc :: bool
  docError :: "string option"

definition MAX_URLS :: nat where
  "MAX_URLS = 20"

definition MAX_DOCS :: nat where
  "MAX_DOCS = 5"

definition mk_urls :: "(string \<times> string) list \<Rightarrow> KnowledgeUrl list" where
  "mk_urls = map (\<lambda>(u, t). \<lparr>url = u, title = t\<rparr>)"

definition GEMINI_DOCS_KNOWLEDGE_URLS :: "KnowledgeUrl list" where
  "GEMINI_DOCS_KNOWLEDGE_URLS = mk_urls
    [(''https://ai.google.dev/gemini-api/docs'', ''Gemini API Documentation''),
     (''https://ai.google.dev/gemini-api/docs/quickstart'', ''Gemini API Quickstart''),
     (''https://ai.google.dev/gemini-api/docs/api-key'', ''Get an API Key''),
     (''https://ai.google.dev/gemini-api/docs/libraries'', ''SDK Libraries''),
     (''https://ai.google.dev/gemini-api/docs/models'', ''Gemini Models''),
     (''https://ai.google.dev/gemini-api/docs/pricing'', ''Pricing Information''),
     (''https://ai.google.dev/gemini-api/docs/rate-limits'', ''Rate Limits''),
     (''https://ai.google.dev/gemini-api/docs/billing'', ''Billing and Payments''),
     (''https://ai.google.dev/gemini-api/docs/changelog'', ''API Changelog'')]"

definition MODEL_CAPABILITIES_KNOWLEDGE_URLS :: "KnowledgeUrl list" where
  "MODEL_CAPABILITIES_KNOWLEDGE_URLS = mk_urls
    [(''https://ai.google.dev/gemini-api/docs/text-generation'', ''Text Generation''),
     (''https://ai.google.dev/gemini-api/docs/image-generation'', ''Image Generation''),
     (''https://ai.google.dev/gemini-api/docs/video'', ''Video Modality''),
     (''https://ai.google.dev/gemini-api/docs/speech-generation'', ''Speech Generation''),
     (''https://ai.google.dev/gemini-api/docs/music-generation'', ''Music Generation''),
     (''https://ai.google.dev/gemini-api/docs/long-context'', ''Long Context''),
     (''https://ai.google.dev/gemini-api/docs/structured-output'', ''Structured Output (JSON)''),
     (''https://ai.google.dev/gemini-api/docs/thinking'', ''Model Thinking''),
     (''https://ai.google.dev/gemini-api/docs/function-calling'', ''Function Calling''),
     (''https://ai.google.dev/gemini-api/docs/document-processing'', ''Document Processing''),
     (''https://ai.google.dev/gemini-api/docs/image-understanding'', ''Image Understanding''),
     (''https://ai.google.dev/gemini-api/docs/video-understanding'', ''Video Understanding''),
     (''https://ai.google.dev/gemini-api/docs/audio'', ''Audio Modality''),
     (''https://ai.google.dev/gemini-api/docs/code-execution'', ''Code Execution''),
     (''https://ai.google.dev/gemini-api/docs/grounding'', ''Grounding with Google Search'')]"

definition INITIAL_URL_GROUPS :: "URLGroup list" where
  "INITIAL_URL_GROUPS =
    [\<lparr>group_id = ''gemini-overview'', group_name = ''Gemini Docs Overview'',
      urls = GEMINI_DOCS_KNOWLEDGE_URLS, documents = []\<rparr>,
     \<lparr>group_id = ''model-capabilities'', group_name = ''Model Capabilities'',
      urls = MODEL_CAPABILITIES_KNOWLEDGE_URLS, documents = []\<rparr>]"

text \<open>The state of the first render: the \<^verbatim>\<open>useState\<close> initial values.\<close>

definition initial_state :: app_state where
  "initial_state =
    \<lparr>urlGroups = INITIAL_URL_GROUPS, activeUrlGroupId = ''gemini-overview'',
     chatMessages = [], isLoading = False, isFetchingSuggestions = False,
     initialQuerySuggestions = [], isProcessingDoc = False, docError = None\<rparr>"

text \<open>\<^verbatim>\<open>urlGroups.find(group => group.id === activeUrlGroupId)\<close> and the two lists derived
  from it.\<close>

definition activeGroup :: "app_state \<Rightarrow> URLGroup option" where
  "activeGroup st = find (\<lambda>group. group_id group = activeUrlGroupId st) (urlGroups st)"

definition currentUrlsForChat :: "app_state \<Rightarrow> KnowledgeUrl list" where
  "currentUrlsForChat st = (case activeGroup st of Some g \<Rightarrow> urls g | None \<Rightarrow> [])"

definition currentDocsForChat :: "app_state \<Rightarrow> LocalDocument list" where
  "currentDocsForChat st = (case activeGroup st of Some g \<Rightarrow> documents g | None \<Rightarrow> [])"

section \<open>Knowledge group store (App handlers)\<close>

text \<open>The group selector passes the state setter itself as \<^verbatim>\<open>onSetGroupId\<close>.\<close>

definition setActiveUrlGroupId :: "string \<Rightarrow> app_state \<Rightarrow> app_state" where
  "setActiveUrlGroupId g st = st\<lparr>activeUrlGroupId := g\<rparr>"

definition handleAddUrl :: "string \<Rightarrow> app_state \<Rightarrow> app_state" where
  "handleAddUrl u st = st\<lparr>urlGroups :=
     map (\<lambda>group.
       if group_id group = activeUrlGroupId st then
         (if length (urls group) < MAX_URLS \<and> \<not> list_ex (\<lambda>item. url item = u) (urls group)
          then group\<lparr>urls := urls group @ [\<lparr>url = u, title = u\<rparr>]\<rparr>
          else group)
       else group) (urlGroups st)\<rparr>"

definition handleRemoveUrl :: "string \<Rightarrow> app_state \<Rightarrow> app_state" where
  "handleRemoveUrl urlToRemove st = st\<lparr>urlGroups :=
     map (\<lambda>group.
       if group_id group = activeUrlGroupId st
       then group\<lparr>urls := filter (\<lambda>item. url item \<noteq> urlToRemove) (urls group)\<rparr>
       else group) (urlGroups st)\<rparr>"

definition handleRemoveDocument :: "string \<Rightarrow> app_state \<Rightarrow> app_state" where
  "handleRemoveDocument docIdToRemove st = st\<lparr>urlGroups :=
     map (\<lambda>group.
       if group_id group = activeUrlGroupId st
       then group\<lparr>documents := filter (\<lambda>doc. doc_id doc \<noteq> docIdToRemove) (documents group)\<rparr>
       else group) (urlGroups st)\<rparr>"

section \<open>Collaborators\<close>

text \<open>A thrown value is an \<^verbatim>\<open>Error\<close> instance with its message, or \<^verbatim>\<open>undefined\<close> or
  \<^verbatim>\<open>null\<close>, or any other value, with its \<^verbatim>\<open>message\<close> property when it has one. A promise is
  fulfilled with a value or rejected with a thrown value.\<close>

datatype thrown = JsError string | OtherValue "string option" | Nullish

text \<open>Reading \<^verbatim>\<open>e.message\<close>: the property, or nothing when the read itself throws a
  \<^verbatim>\<open>TypeError\<close>, as it does on \<^verbatim>\<open>undefined\<close> and \<^verbatim>\<open>null\<close>.\<close>

fun read_message :: "thrown \<Rightarrow> string option option" where
  "read_message (JsError m) = Some (Some m)"
| "read_message (OtherValue m) = Some m"
| "read_message Nullish = None"

datatype 'a outcome = Fulfilled 'a | Rejected thrown

text \<open>\<^verbatim>\<open>a || b\<close> on an optional string.\<close>

definition or_else :: "string option \<Rightarrow> string \<Rightarrow> string" where
  "or_else v d = (case v of None \<Rightarrow> d | Some s \<Rightarrow> if s = [] then d else s)"

type_synonym bytes = "8 word list"

text \<open>An uploaded file: its name and what \<^verbatim>\<open>file.arrayBuffer()\<close> settles to.\<close>

record File =
  file_name :: string
  file_arrayBuffer :: "bytes outcome"

text \<open>The two decoding libraries are parameters. \<^verbatim>\<open>mammoth.extractRawText\<close> settles to the
  \<^verbatim>\<open>value\<close> of its result. \<^verbatim>\<open>pdfjsLib.getDocument\<close> settles to the pages in order; a page
  settles to the items of its text content, an item being its \<^verbatim>\<open>str\<close> when it has one.\<close>

type_synonym pdf_page = "string option list outcome"

record decoders =
  extractRawText :: "bytes \<Rightarrow> string outcome"
  getDocument :: "bytes \<Rightarrow> pdf_page list outcome"

section \<open>Document ingestion (App.handleAddDocument)\<close>

definition unsupported_msg :: string where
  "unsupported_msg = ''Unsupported file type. Please select a .docx or .pdf file.''"

definition empty_doc_msg :: string where
  "empty_doc_msg =
     ''Could not extract any text from the document. It might be empty or image-based.''"

definition max_docs_msg :: string where
  "max_docs_msg = ''Maximum of '' @ show_nat MAX_DOCS @ '' documents reached.''"

text \<open>The page loop: \<^verbatim>\<open>extractedText += pageText + '\n\n'\<close>, leaving at the first page that
  rejects.\<close>

fun pdf_pages_text :: "pdf_page list \<Rightarrow> string \<Rightarrow> thrown + string" where
  "pdf_pages_text [] extractedText = Inr extractedText"
| "pdf_pages_text (Rejected e # ps) extractedText = Inl e"
| "pdf_pages_text (Fulfilled items # ps) extractedText =
     pdf_pages_text ps
       (extractedText @
        join '' '' (map (\<lambda>item. case item of Some str \<Rightarrow> str | None \<Rightarrow> []) items) @
        [CHR 0x0A, CHR 0x0A])"

text \<open>The \<^verbatim>\<open>if\<close>/\<^verbatim>\<open>else if\<close>/\<^verbatim>\<open>else\<close> on the file name, after the bytes are read: the text
  content, or what was thrown.\<close>

definition decode_text :: "decoders \<Rightarrow> File \<Rightarrow> thrown + string" where
  "decode_text dec file =
     (case file_arrayBuffer file of
        Rejected e \<Rightarrow> Inl e
      | Fulfilled arrayBuffer \<Rightarrow>
          if endsWith (toLowerCase (file_name file)) ''.docx'' then
            (case extractRawText dec arrayBuffer of
               Rejected e \<Rightarrow> Inl e
             | Fulfilled v \<Rightarrow> Inr v)
          else if endsWith (toLowerCase (file_name file)) ''.pdf'' then
            (case getDocument dec arrayBuffer of
               Rejected e \<Rightarrow> Inl e
             | Fulfilled pages \<Rightarrow>
                 (case pdf_pages_text pages [] of
                    Inl e \<Rightarrow> Inl e
                  | Inr extractedText \<Rightarrow> Inr (trim extractedText)))
          else Inl (JsError unsupported_msg))"

text \<open>The body of the \<^verbatim>\<open>try\<close> up to the new document, with the check
  \<^verbatim>\<open>if (!textContent.trim())\<close>.\<close>

definition extract_text :: "decoders \<Rightarrow> File \<Rightarrow> thrown + string" where
  "extract_text dec file =
     (case decode_text dec file of
        Inl e \<Rightarrow> Inl e
      | Inr textContent \<Rightarrow>
          if trim textContent = [] then Inl (JsError empty_doc_msg) else Inr textContent)"

text \<open>The document built from a file and its text.\<close>

definition newDocument :: "nat \<Rightarrow> File \<Rightarrow> string \<Rightarrow> LocalDocument" where
  "newDocument now file textContent =
     \<lparr>doc_id = ''doc-'' @ show_nat now @ ''-'' @ file_name file,
      doc_name = file_name file, content = textContent\<rparr>"

text \<open>\<^verbatim>\<open>now\<close> is the value of \<^verbatim>\<open>Date.now()\<close> when the document is built.\<close>

definition handleAddDocument :: "decoders \<Rightarrow> nat \<Rightarrow> File \<Rightarrow> app_state \<Rightarrow> app_state" where
  "handleAddDocument dec now file st =
     (let st0 = st\<lparr>isProcessingDoc := True, docError := None\<rparr> in
      case extract_text dec file of
        Inr textContent \<Rightarrow>
          st0\<lparr>urlGroups :=
                map (\<lambda>group.
                  if group_id group = activeUrlGroupId st then
                    (if length (documents group) < MAX_DOCS
                     then group\<lparr>documents := documents group @ [newDocument now file textContent]\<rparr>
                     else group)
                  else group) (urlGroups st),
              docError :=
                (if list_ex (\<lambda>group. group_id group = activeUrlGroupId st \<and>
                                      \<not> length (documents group) < MAX_DOCS) (urlGroups st)
                 then Some max_docs_msg else docError st0),
              isProcessingDoc := False\<rparr>
      | Inl error \<Rightarrow>
          st0\<lparr>docError :=
                Some (case error of
                        JsError m \<Rightarrow> m
                      | OtherValue m \<Rightarrow> ''Failed to read the content of this file.''
                      | Nullish \<Rightarrow> ''Failed to read the content of this file.''),
              isProcessingDoc := False\<rparr>)"

section \<open>URL input (KnowledgeBaseManager.handleAddUrl)\<close>

record kbm_state =
  currentUrlInput :: string
  urlError :: "string option"

definition empty_url_msg :: string where
  "empty_url_msg = ''URL cannot be empty.''"

definition invalid_url_msg :: string where
  "invalid_url_msg = ''Invalid URL format. Please include http:// or https://''"

definition max_urls_msg :: string where
  "max_urls_msg =
     ''You can add a maximum of '' @ show_nat MAX_URLS @ '' URLs to the current group.''"

definition duplicate_url_msg :: string where
  "duplicate_url_msg = ''This URL has already been added to the current group.''"

text \<open>\<^verbatim>\<open>isValidUrl\<close> asks the platform's URL parser, a parameter here. The component receives
  \<^verbatim>\<open>urls = currentUrlsForChat\<close>, \<^verbatim>\<open>maxUrls = MAX_URLS\<close> and \<^verbatim>\<open>onAddUrl = handleAddUrl\<close>.\<close>

definition KnowledgeBaseManager_handleAddUrl ::
    "(string \<Rightarrow> bool) \<Rightarrow> kbm_state \<times> app_state \<Rightarrow> kbm_state \<times> app_state" where
  "KnowledgeBaseManager_handleAddUrl isValidUrl = (\<lambda>(k, st).
     if trim (currentUrlInput k) = [] then (k\<lparr>urlError := Some empty_url_msg\<rparr>, st)
     else if \<not> isValidUrl (currentUrlInput k) then (k\<lparr>urlError := Some invalid_url_msg\<rparr>, st)
     else if length (currentUrlsForChat st) \<ge> MAX_URLS
       then (k\<lparr>urlError := Some max_urls_msg\<rparr>, st)
     else if list_ex (\<lambda>item. url item = currentUrlInput k) (currentUrlsForChat st)
       then (k\<lparr>urlError := Some duplicate_url_msg\<rparr>, st)
     else (k\<lparr>currentUrlInput := [], urlError := None\<rparr>, handleAddUrl (currentUrlInput k) st))"

text \<open>The input's \<^verbatim>\<open>onChange\<close>, and a submission: the text is entered, then added.\<close>

definition onChangeUrlInput :: "string \<Rightarrow> kbm_state \<Rightarrow> kbm_state" where
  "onChangeUrlInput v k = k\<lparr>currentUrlInput := v, urlError := None\<rparr>"

definition addUrl :: "(string \<Rightarrow> bool) \<Rightarrow> string \<Rightarrow> kbm_state \<times> app_state \<Rightarrow> kbm_state \<times> app_state" where
  "addUrl isValidUrl u = (\<lambda>(k, st).
     KnowledgeBaseManager_handleAddUrl isValidUrl (onChangeUrlInput u k, st))"

text \<open>Sequences of add operations on the store.\<close>

datatype add_op = AddUrl string | AddDocument nat File

fun add_step ::
    "(string \<Rightarrow> bool) \<Rightarrow> decoders \<Rightarrow> add_op \<Rightarrow> kbm_state \<times> app_state \<Rightarrow> kbm_state \<times> app_state" where
  "add_step isValidUrl dec (AddUrl u) (k, st) = addUrl isValidUrl u (k, st)"
| "add_step isValidUrl dec (AddDocument now file) (k, st) = (k, handleAddDocument dec now file st)"

fun add_run ::
    "(string \<Rightarrow> bool) \<Rightarrow> decoders \<Rightarrow> add_op list \<Rightarrow> kbm_state \<times> app_state \<Rightarrow> kbm_state \<times> app_state" where
  "add_run isValidUrl dec [] s = s"
| "add_run isValidUrl dec (x # xs) s = add_run isValidUrl dec xs (add_step isValidUrl dec x s)"

definition within_capacity :: "app_state \<Rightarrow> bool" where
  "within_capacity st \<longleftrightarrow>
     list_all (\<lambda>g. length (urls g) \<le> MAX_URLS \<and> length (documents g) \<le> MAX_DOCS) (urlGroups st)"

section \<open>Chat session (App.handleSendMessage)\<close>

text \<open>The generation service is a parameter: from the query, the URL strings and the document
  texts to the settled promise. Of the response the handler reads \<^verbatim>\<open>text\<close> and
  \<^verbatim>\<open>urlContextMetadata\<close>.\<close>

record GenerateResponse =
  resp_text :: "string option"
  urlContextMetadata :: "UrlContextMetadataItem list option"

type_synonym generate_service = "string \<Rightarrow> string list \<Rightarrow> string list \<Rightarrow> GenerateResponse outcome"

definition apikey_error_text :: string where
  "apikey_error_text =
     ''ERROR: API Key (process.env.API_KEY) is not configured. Please set it up to send messages.''"

definition empty_response_text :: string where
  "empty_response_text = ''I received an empty response.''"

definition chat_failure_default :: string where
  "chat_failure_default = ''Failed to get response from AI.''"

text \<open>A message built from \<^verbatim>\<open>id\<close>, \<^verbatim>\<open>text\<close>, \<^verbatim>\<open>sender\<close> and \<^verbatim>\<open>timestamp\<close> alone.\<close>

definition plain_message :: "string \<Rightarrow> string \<Rightarrow> MessageSender \<Rightarrow> nat \<Rightarrow> ChatMessage" where
  "plain_message i t s d =
     \<lparr>msg_id = i, msg_text = t, msg_sender = s, msg_timestamp = d,
      msg_isLoading = None, msg_urlContext = None\<rparr>"

text \<open>The handler up to its \<^verbatim>\<open>await\<close>. \<^verbatim>\<open>apiKey\<close> is \<^verbatim>\<open>process.env.API_KEY\<close>; \<^verbatim>\<open>ticks n\<close>
  is the clock at the handler's \<^verbatim>\<open>n\<close>-th reading (\<^verbatim>\<open>Date.now()\<close>, \<^verbatim>\<open>new Date()\<close>). The
  result is the placeholder the continuation holds, or nothing when the handler has returned.\<close>

definition handleSendMessage_start ::
    "string option \<Rightarrow> (nat \<Rightarrow> nat) \<Rightarrow> string \<Rightarrow> app_state \<Rightarrow> ChatMessage option \<times> app_state" where
  "handleSendMessage_start apiKey ticks query st =
     (if trim query = [] \<or> isLoading st \<or> isFetchingSuggestions st then (None, st)
      else if \<not> truthy apiKey then
        (None, st\<lparr>chatMessages := chatMessages st @
           [plain_message (''error-apikey-'' @ show_nat (ticks 0)) apikey_error_text SYSTEM (ticks 1)]\<rparr>)
      else
        (let userMessage = plain_message (''user-'' @ show_nat (ticks 0)) query USER (ticks 1);
             modelPlaceholderMessage =
               \<lparr>msg_id = ''model-response-'' @ show_nat (ticks 2), msg_text = ''Thinking...'',
                msg_sender = MODEL, msg_timestamp = ticks 3,
                msg_isLoading = Some True, msg_urlContext = None\<rparr>
         in (Some modelPlaceholderMessage,
             st\<lparr>isLoading := True, initialQuerySuggestions := [],
                chatMessages := chatMessages st @ [userMessage, modelPlaceholderMessage]\<rparr>)))"

text \<open>The request the handler issues: the query with the URL strings and document texts of
  the group that was active when the handler was created.\<close>

definition handleSendMessage_request ::
    "generate_service \<Rightarrow> string \<Rightarrow> app_state \<Rightarrow> GenerateResponse outcome" where
  "handleSendMessage_request service query st =
     service query (map url (currentUrlsForChat st)) (map content (currentDocsForChat st))"

text \<open>The handler after its \<^verbatim>\<open>await\<close>: \<^verbatim>\<open>try\<close> on fulfilment, \<^verbatim>\<open>catch\<close> on rejection,
  \<^verbatim>\<open>finally\<close> after either. It runs on the state of that later moment. The \<^verbatim>\<open>catch\<close> begins by
  reading \<^verbatim>\<open>e.message\<close>; when that read throws, the rest of the \<^verbatim>\<open>catch\<close> does not run, and
  \<^verbatim>\<open>finally\<close> still does.\<close>

definition handleSendMessage_settle ::
    "ChatMessage \<Rightarrow> GenerateResponse outcome \<Rightarrow> app_state \<Rightarrow> app_state" where
  "handleSendMessage_settle modelPlaceholderMessage result st =
     (case result of
        Fulfilled response \<Rightarrow>
          st\<lparr>chatMessages :=
               map (\<lambda>msg.
                 if msg_id msg = msg_id modelPlaceholderMessage
                 then modelPlaceholderMessage
                        \<lparr>msg_text := or_else (resp_text response) empty_response_text,
                         msg_isLoading := Some False,
                         msg_urlContext := urlContextMetadata response\<rparr>
                 else msg) (chatMessages st),
             isLoading := False\<rparr>
      | Rejected e \<Rightarrow>
          (case read_message e of
             None \<Rightarrow> st\<lparr>isLoading := False\<rparr>
           | Some message \<Rightarrow>
               (let errorMessage = or_else message chat_failure_default in
                st\<lparr>chatMessages :=
                     map (\<lambda>msg.
                       if msg_id msg = msg_id modelPlaceholderMessage
                       then modelPlaceholderMessage
                              \<lparr>msg_text := ''Error: '' @ errorMessage,
                               msg_sender := SYSTEM,
                               msg_isLoading := Some False\<rparr>
                       else msg) (chatMessages st),
                   isLoading := False\<rparr>)))"

text \<open>The whole handler when nothing else touches the state while the request is pending.\<close>

definition handleSendMessage ::
    "string option \<Rightarrow> generate_service \<Rightarrow> (nat \<Rightarrow> nat) \<Rightarrow> string \<Rightarrow> app_state \<Rightarrow> app_state" where
  "handleSendMessage apiKey service ticks query st =
     (case handleSendMessage_start apiKey ticks query st of
        (None, st1) \<Rightarrow> st1
      | (Some modelPlaceholderMessage, st1) \<Rightarrow>
          handleSendMessage_settle modelPlaceholderMessage
            (handleSendMessage_request service query st) st1)"

section \<open>Suggestion fetcher (App.fetchAndSetInitialSuggestions)\<close>

subsection \<open>The fence pattern\<close>

text \<open>
  The pattern \<^verbatim>\<open>/^```(\w*)?\s*\n?(.*?)\n?\s*```$/s\<close> as a backtracking matcher: each piece takes
  the continuation that matches the rest of the pattern and tries its alternatives in the
  order of the regular expression (a greedy piece the longest first, the lazy group the
  shortest first). The outcome is the second group of the first match found, or nothing when the
  pattern does not match. The pattern is anchored at the start, so position 0 is the only start.
\<close>

definition is_word :: "char \<Rightarrow> bool" where
  "is_word c \<longleftrightarrow>
     (let n = of_char c :: nat in
      (48 \<le> n \<and> n \<le> 57) \<or> (65 \<le> n \<and> n \<le> 90) \<or> (97 \<le> n \<and> n \<le> 122) \<or> n = 95)"

definition fence :: string where
  "fence = [CHR 0x60, CHR 0x60, CHR 0x60]"

fun rx_star :: "(char \<Rightarrow> bool) \<Rightarrow> (string \<Rightarrow> 'r option) \<Rightarrow> string \<Rightarrow> 'r option" where
  "rx_star P k [] = k []"
| "rx_star P k (c # cs) =
     (if P c then (case rx_star P k cs of Some r \<Rightarrow> Some r | None \<Rightarrow> k (c # cs))
      else k (c # cs))"

definition rx_opt :: "char \<Rightarrow> (string \<Rightarrow> 'r option) \<Rightarrow> string \<Rightarrow> 'r option" where
  "rx_opt c k s =
     (case s of
        [] \<Rightarrow> k s
      | x # xs \<Rightarrow> if x = c then (case k xs of Some r \<Rightarrow> Some r | None \<Rightarrow> k s) else k s)"

definition rx_lit :: "string \<Rightarrow> (string \<Rightarrow> 'r option) \<Rightarrow> string \<Rightarrow> 'r option" where
  "rx_lit l k s = (if startsWith s l then k (drop (length l) s) else None)"

text \<open>The lazy group \<^verbatim>\<open>(.*?)\<close> under the flag \<^verbatim>\<open>s\<close>: any character, captured.\<close>

fun rx_lazy_group :: "(string \<Rightarrow> string \<Rightarrow> 'r option) \<Rightarrow> string \<Rightarrow> string \<Rightarrow> 'r option" where
  "rx_lazy_group k captured [] = k captured []"
| "rx_lazy_group k captured (c # cs) =
     (case k captured (c # cs) of
        Some r \<Rightarrow> Some r
      | None \<Rightarrow> rx_lazy_group k (captured @ [c]) cs)"

definition rx_end :: "'r \<Rightarrow> string \<Rightarrow> 'r option" where
  "rx_end r s = (if s = [] then Some r else None)"

definition fenceRegex_group2 :: "string \<Rightarrow> string option" where
  "fenceRegex_group2 s =
     rx_lit fence
       (rx_star is_word
         (rx_star is_space
           (rx_opt (CHR 0x0A)
             (rx_lazy_group
               (\<lambda>group2. rx_opt (CHR 0x0A) (rx_star is_space (rx_lit fence (rx_end group2))))
               [])))) s"

text \<open>The string handed to \<^verbatim>\<open>JSON.parse\<close>: the trimmed body, or the trimmed second group
  when the pattern matches with a second group that is not empty.\<close>

definition jsonStr_of :: "string \<Rightarrow> string" where
  "jsonStr_of text =
     (let jsonStr = trim text in
      case fenceRegex_group2 jsonStr of
        None \<Rightarrow> jsonStr
      | Some group2 \<Rightarrow> if group2 \<noteq> [] then trim group2 else jsonStr)"

subsection \<open>Parsed values\<close>

text \<open>What \<^verbatim>\<open>JSON.parse\<close> returns; an object is the list of its properties. The parser itself is
  a parameter, with no value where it throws.\<close>

datatype json =
  JNull | JBool bool | JNumber real | JString string | JArray "json list"
  | JObject "(string \<times> json) list"

fun json_truthy :: "json \<Rightarrow> bool" where
  "json_truthy JNull = False"
| "json_truthy (JBool b) = b"
| "json_truthy (JNumber x) = (x \<noteq> 0)"
| "json_truthy (JString s) = (s \<noteq> [])"
| "json_truthy (JArray xs) = True"
| "json_truthy (JObject kvs) = True"

text \<open>\<^verbatim>\<open>parsed.suggestions\<close> on a value that is not null: only an object can own the
  property.\<close>

fun json_suggestions :: "json \<Rightarrow> json option" where
  "json_suggestions (JObject kvs) = map_of kvs ''suggestions''"
| "json_suggestions v = None"

text \<open>\<^verbatim>\<open>filter(s => typeof s === 'string')\<close>.\<close>

fun only_strings :: "json list \<Rightarrow> string list" where
  "only_strings [] = []"
| "only_strings (JString s # xs) = s # only_strings xs"
| "only_strings (v # xs) = only_strings xs"

subsection \<open>The fetch\<close>

definition suggestion_format_text :: string where
  "suggestion_format_text = ''Received suggestions in an unexpected format.''"

definition suggestion_parse_text :: string where
  "suggestion_parse_text = ''Error parsing suggestions from AI.''"

definition suggestion_fetch_default :: string where
  "suggestion_fetch_default = ''Failed to fetch initial suggestions.''"

text \<open>The function up to its \<^verbatim>\<open>await\<close>; the flag tells whether a request is issued.\<close>

definition fetchAndSetInitialSuggestions_start ::
    "string list \<Rightarrow> LocalDocument list \<Rightarrow> app_state \<Rightarrow> bool \<times> app_state" where
  "fetchAndSetInitialSuggestions_start urlStrings docs st =
     (if length urlStrings = 0 \<and> length docs = 0 then (False, st\<lparr>initialQuerySuggestions := []\<rparr>)
      else (True, st\<lparr>isFetchingSuggestions := True, initialQuerySuggestions := []\<rparr>))"

text \<open>The inner \<^verbatim>\<open>try\<close> under \<^verbatim>\<open>if (response.text)\<close>: the suggestions array and the state,
  with the message of the \<^verbatim>\<open>else\<close> branch or of the inner \<^verbatim>\<open>catch\<close> appended. \<^verbatim>\<open>ticks\<close> is
  the clock as in the chat handler.\<close>

definition suggestions_from_text ::
    "(string \<Rightarrow> json option) \<Rightarrow> (nat \<Rightarrow> nat) \<Rightarrow> string option \<Rightarrow> app_state \<Rightarrow> string list \<times> app_state" where
  "suggestions_from_text JSON_parse ticks text st =
     (case text of
        None \<Rightarrow> ([], st)
      | Some body \<Rightarrow>
          if body = [] then ([], st)
          else
            (case JSON_parse (jsonStr_of body) of
               None \<Rightarrow>
                 ([], st\<lparr>chatMessages := chatMessages st @
                        [plain_message (''sys-err-suggestion-parse-'' @ show_nat (ticks 0))
                           suggestion_parse_text SYSTEM (ticks 1)]\<rparr>)
             | Some parsed \<Rightarrow>
                 (case (if json_truthy parsed then json_suggestions parsed else None) of
                    Some (JArray suggestions) \<Rightarrow> (only_strings suggestions, st)
                  | _ \<Rightarrow>
                      ([], st\<lparr>chatMessages := chatMessages st @
                             [plain_message (''sys-err-suggestion-fmt-'' @ show_nat (ticks 0))
                                suggestion_format_text SYSTEM (ticks 1)]\<rparr>))))"

text \<open>The function after its \<^verbatim>\<open>await\<close>, on the \<^verbatim>\<open>text\<close> of the response or on the
  rejection. The outer \<^verbatim>\<open>catch\<close> begins by reading \<^verbatim>\<open>e.message\<close>; when that read throws,
  no message is appended, and \<^verbatim>\<open>finally\<close> still runs.\<close>

definition fetchAndSetInitialSuggestions_settle ::
    "(string \<Rightarrow> json option) \<Rightarrow> (nat \<Rightarrow> nat) \<Rightarrow> string option outcome \<Rightarrow> app_state \<Rightarrow> app_state" where
  "fetchAndSetInitialSuggestions_settle JSON_parse ticks result st =
     (case result of
        Rejected e \<Rightarrow>
          (case read_message e of
             None \<Rightarrow> st\<lparr>isFetchingSuggestions := False\<rparr>
           | Some message \<Rightarrow>
               st\<lparr>chatMessages := chatMessages st @
                    [plain_message (''sys-err-suggestion-fetch-'' @ show_nat (ticks 0))
                       (''Error fetching suggestions: '' @ or_else message suggestion_fetch_default)
                       SYSTEM (ticks 1)],
                  isFetchingSuggestions := False\<rparr>)
      | Fulfilled text \<Rightarrow>
          (case suggestions_from_text JSON_parse ticks text st of
             (suggestionsArray, st1) \<Rightarrow>
               st1\<lparr>initialQuerySuggestions := take 4 suggestionsArray,
                   isFetchingSuggestions := False\<rparr>))"

text \<open>The whole function when nothing else touches the state while the request is pending; the
  suggestion service is a parameter, from the URL strings and the document texts to the
  \<^verbatim>\<open>text\<close> of the response.\<close>

definition fetchAndSetInitialSuggestions ::
    "(string list \<Rightarrow> string list \<Rightarrow> string option outcome) \<Rightarrow> (string \<Rightarrow> json option) \<Rightarrow>
     (nat \<Rightarrow> nat) \<Rightarrow> string list \<Rightarrow> LocalDocument list \<Rightarrow> app_state \<Rightarrow> app_state" where
  "fetchAndSetInitialSuggestions getInitialSuggestions JSON_parse ticks urlStrings docs st =
     (case fetchAndSetInitialSuggestions_start urlStrings docs st of
        (False, st1) \<Rightarrow> st1
      | (True, st1) \<Rightarrow>
          fetchAndSetInitialSuggestions_settle JSON_parse ticks
            (getInitialSuggestions urlStrings (map content docs)) st1)"

section \<open>Effects (App)\<close>

text \<open>The effect on the active id and the group collection: the log becomes one welcome
  message.\<close>

definition apikey_welcome_text :: string where
  "apikey_welcome_text =
     ''ERROR: Gemini API Key (process.env.API_KEY) is not configured. '' @
     ''Please set this environment variable to use the application.''"

definition welcome_text :: "string \<Rightarrow> string" where
  "welcome_text groupName =
     ''Welcome to Documentation Chat Bot! You'' @ [CHR 0x27] @
     ''re currently browsing content from: '' @ [CHR 0x22] @ groupName @ [CHR 0x22] @
     ''. Just ask me questions, or try one of the suggestions below to get started''"

definition welcomeEffect :: "string option \<Rightarrow> (nat \<Rightarrow> nat) \<Rightarrow> app_state \<Rightarrow> app_state" where
  "welcomeEffect apiKey ticks st =
     (let welcomeMessageText =
            (if \<not> truthy apiKey then apikey_welcome_text
             else welcome_text (or_else (map_option group_name (activeGroup st)) ''None''))
      in st\<lparr>chatMessages :=
              [plain_message
                 (''system-welcome-'' @ activeUrlGroupId st @ ''-'' @ show_nat (ticks 0))
                 welcomeMessageText SYSTEM (ticks 1)]\<rparr>)"

text \<open>The effect on the current URL and document lists: a suggestion fetch when there is
  something to ask about and a credential, an empty suggestion list otherwise. The flag tells
  whether a request is issued.\<close>

definition suggestionsEffect_start :: "string option \<Rightarrow> app_state \<Rightarrow> bool \<times> app_state" where
  "suggestionsEffect_start apiKey st =
     (let urlStrings = map url (currentUrlsForChat st) in
      if (length urlStrings > 0 \<or> length (currentDocsForChat st) > 0) \<and> truthy apiKey
      then fetchAndSetInitialSuggestions_start urlStrings (currentDocsForChat st) st
      else (False, st\<lparr>initialQuerySuggestions := []\<rparr>))"

section \<open>Requests in flight\<close>

text \<open>
  The handlers and effects interleave with the settling of the requests they started. The
  application state is paired with what is in flight: the placeholder held by each chat request
  that awaits its response, and the number of suggestion fetches that await theirs. An event is
  one handler or effect run up to its \<^verbatim>\<open>await\<close>, or the settling of one request in flight with
  its outcome; the settling of a request that is not in flight does nothing. Each event runs on
  the state of its moment: the component is rendered between two events, so a handler reads the
  flags as they are then. The credential and the JSON parser are the same throughout.
\<close>

record system =
  app :: app_state
  chat_pending :: "ChatMessage list"
  fetches_pending :: nat

datatype event =
    EvSendMessage "nat \<Rightarrow> nat" string
  | EvChatSettles nat "GenerateResponse outcome"
  | EvSuggestionsEffect
  | EvFetchSettles "nat \<Rightarrow> nat" "string option outcome"
  | EvWelcomeEffect "nat \<Rightarrow> nat"
  | EvSetActiveGroup string
  | EvAddUrl string
  | EvRemoveUrl string
  | EvAddDocument decoders nat File
  | EvRemoveDocument string

fun fire :: "string option \<Rightarrow> (string \<Rightarrow> json option) \<Rightarrow> event \<Rightarrow> system \<Rightarrow> system" where
  "fire apiKey JSON_parse (EvSendMessage ticks query) s =
     (case handleSendMessage_start apiKey ticks query (app s) of
        (None, st1) \<Rightarrow> s\<lparr>app := st1\<rparr>
      | (Some modelPlaceholderMessage, st1) \<Rightarrow>
          s\<lparr>app := st1, chat_pending := chat_pending s @ [modelPlaceholderMessage]\<rparr>)"
| "fire apiKey JSON_parse (EvChatSettles i result) s =
     (if i < length (chat_pending s)
      then s\<lparr>app := handleSendMessage_settle (chat_pending s ! i) result (app s),
             chat_pending := take i (chat_pending s) @ drop (Suc i) (chat_pending s)\<rparr>
      else s)"
| "fire apiKey JSON_parse EvSuggestionsEffect s =
     (case suggestionsEffect_start apiKey (app s) of
        (False, st1) \<Rightarrow> s\<lparr>app := st1\<rparr>
      | (True, st1) \<Rightarrow> s\<lparr>app := st1, fetches_pending := Suc (fetches_pending s)\<rparr>)"
| "fire apiKey JSON_parse (EvFetchSettles ticks result) s =
     (if 0 < fetches_pending s
      then s\<lparr>app := fetchAndSetInitialSuggestions_settle JSON_parse ticks result (app s),
             fetches_pending := fetches_pending s - 1\<rparr>
      else s)"
| "fire apiKey JSON_parse (EvWelcomeEffect ticks) s = s\<lparr>app := welcomeEffect apiKey ticks (app s)\<rparr>"
| "fire apiKey JSON_parse (EvSetActiveGroup g) s = s\<lparr>app := setActiveUrlGroupId g (app s)\<rparr>"
| "fire apiKey JSON_parse (EvAddUrl u) s = s\<lparr>app := handleAddUrl u (app s)\<rparr>"
| "fire apiKey JSON_parse (EvRemoveUrl u) s = s\<lparr>app := handleRemoveUrl u (app s)\<rparr>"
| "fire apiKey JSON_parse (EvAddDocument dec now file) s =
     s\<lparr>app := handleAddDocument dec now file (app s)\<rparr>"
| "fire apiKey JSON_parse (EvRemoveDocument d) s = s\<lparr>app := handleRemoveDocument d (app s)\<rparr>"

fun run :: "string option \<Rightarrow> (string \<Rightarrow> json option) \<Rightarrow> event list \<Rightarrow> system \<Rightarrow> system" where
  "run apiKey JSON_parse [] s = s"
| "run apiKey JSON_parse (e # es) s = run apiKey JSON_parse es (fire apiKey JSON_parse e s)"

fun settles_fetch :: "event \<Rightarrow> bool" where
  "settles_fetch (EvFetchSettles ticks result) = True"
| "settles_fetch e = False"

text \<open>The first render, with nothing in flight.\<close>

definition initial_system :: system where
  "initial_system = \<lparr>app = initial_state, chat_pending = [], fetches_pending = 0\<rparr>"

section \<open>Vocabulary of the properties\<close>

text \<open>The values the group selector offers: one option per group, its value the group's id.\<close>

definition group_select_options :: "app_state \<Rightarrow> string list" where
  "group_select_options st = map group_id (urlGroups st)"

text \<open>Frames, group by group in the order of the collection: a group differs at most in its
  URL list (or in its document list), and a group that is not the active one does not differ.\<close>

definition urls_frame :: "app_state \<Rightarrow> app_state \<Rightarrow> bool" where
  "urls_frame st st' \<longleftrightarrow>
     list_all2 (\<lambda>g g'. g' = g\<lparr>urls := urls g'\<rparr> \<and> (group_id g \<noteq> activeUrlGroupId st \<longrightarrow> g' = g))
       (urlGroups st) (urlGroups st')"

definition documents_frame :: "app_state \<Rightarrow> app_state \<Rightarrow> bool" where
  "documents_frame st st' \<longleftrightarrow>
     list_all2 (\<lambda>g g'. g' = g\<lparr>documents := documents g'\<rparr> \<and> (group_id g \<noteq> activeUrlGroupId st \<longrightarrow> g' = g))
       (urlGroups st) (urlGroups st')"

text \<open>The flags in step with what is in flight: the chat flag is set exactly when a chat
  request is in flight, of which there is at most one, and the suggestion flag is set only when
  a suggestion fetch is in flight.\<close>

definition in_step :: "system \<Rightarrow> bool" where
  "in_step s \<longleftrightarrow>
     (chat_pending s \<noteq> []) = isLoading (app s) \<and> length (chat_pending s) \<le> 1 \<and>
     (\<not> isFetchingSuggestions (app s) \<or> 0 < fetches_pending s)"

text \<open>The number of entries of a URL list whose \<^verbatim>\<open>url\<close> is the given string.\<close>

definition url_count :: "string \<Rightarrow> KnowledgeUrl list \<Rightarrow> nat" where
  "url_count u xs = length (filter (\<lambda>item. url item = u) xs)"

text \<open>Sample inputs: an empty URL form, a URL parser that accepts everything, and the state
  reached from the first render by selecting the second group and adding the first \<^verbatim>\<open>n\<close> of
  five further URLs to its fifteen.\<close>

definition empty_form :: kbm_state where
  "empty_form = \<lparr>currentUrlInput = [], urlError = None\<rparr>"

definition filler_urls :: "string list" where
  "filler_urls =
     [''https://a.example/1'', ''https://a.example/2'', ''https://a.example/3'',
      ''https://a.example/4'', ''https://a.example/5'']"

definition filled_state :: "nat \<Rightarrow> kbm_state \<times> app_state" where
  "filled_state n =
     fold (addUrl (\<lambda>u. True)) (take n filler_urls)
       (empty_form, setActiveUrlGroupId ''model-capabilities'' initial_state)"

text \<open>Sample collaborators and uploads: decoders that always succeed, a file with three bytes,
  and the state reached from the first render by uploading five documents.\<close>

definition sample_decoders :: decoders where
  "sample_decoders =
     \<lparr>extractRawText = (\<lambda>b. Fulfilled ''Hello world''),
      getDocument = (\<lambda>b. Fulfilled [Fulfilled [Some ''page'', None, Some ''one''], Fulfilled []])\<rparr>"

definition sample_file :: "string \<Rightarrow> File" where
  "sample_file n = \<lparr>file_name = n, file_arrayBuffer = Fulfilled [1, 2, 3]\<rparr>"

definition five_documents_state :: app_state where
  "five_documents_state =
     fold (\<lambda>now. handleAddDocument sample_decoders now (sample_file ''Notes.PDF''))
       [1, 2, 3, 4, 5] initial_state"

text \<open>Decoders that find no text: a document of blanks, a PDF whose pages carry no text
  item.\<close>

definition blank_decoders :: decoders where
  "blank_decoders =
     \<lparr>extractRawText = (\<lambda>b. Fulfilled '' ''),
      getDocument = (\<lambda>b. Fulfilled [Fulfilled [None], Fulfilled []])\<rparr>"

text \<open>The messages the chat properties speak of, written from their wording: the user message
  with the literal query, the placeholder in progress, the placeholder once resolved with the
  response text (or the fallback when there is none) and the retrieval metadata, and the
  placeholder once failed, a system message with the reason after \<^verbatim>\<open>Error: \<close>.\<close>

definition expected_user_message :: "(nat \<Rightarrow> nat) \<Rightarrow> string \<Rightarrow> ChatMessage" where
  "expected_user_message ticks query =
     \<lparr>msg_id = ''user-'' @ show_nat (ticks 0), msg_text = query, msg_sender = USER,
      msg_timestamp = ticks 1, msg_isLoading = None, msg_urlContext = None\<rparr>"

definition expected_placeholder :: "(nat \<Rightarrow> nat) \<Rightarrow> ChatMessage" where
  "expected_placeholder ticks =
     \<lparr>msg_id = ''model-response-'' @ show_nat (ticks 2), msg_text = ''Thinking...'',
      msg_sender = MODEL, msg_timestamp = ticks 3, msg_isLoading = Some True,
      msg_urlContext = None\<rparr>"

definition expected_resolved :: "(nat \<Rightarrow> nat) \<Rightarrow> GenerateResponse \<Rightarrow> ChatMessage" where
  "expected_resolved ticks response =
     \<lparr>msg_id = ''model-response-'' @ show_nat (ticks 2),
      msg_text = (case resp_text response of
                    None \<Rightarrow> ''I received an empty response.''
                  | Some t \<Rightarrow> if t = [] then ''I received an empty response.'' else t),
      msg_sender = MODEL, msg_timestamp = ticks 3, msg_isLoading = Some False,
      msg_urlContext = urlContextMetadata response\<rparr>"

definition failure_reason :: "thrown \<Rightarrow> string" where
  "failure_reason e =
     (case e of
        JsError m \<Rightarrow> if m = [] then ''Failed to get response from AI.'' else m
      | OtherValue None \<Rightarrow> ''Failed to get response from AI.''
      | OtherValue (Some m) \<Rightarrow> if m = [] then ''Failed to get response from AI.'' else m
      | Nullish \<Rightarrow> ''Failed to get response from AI.'')"

definition expected_failed :: "(nat \<Rightarrow> nat) \<Rightarrow> thrown \<Rightarrow> ChatMessage" where
  "expected_failed ticks e =
     \<lparr>msg_id = ''model-response-'' @ show_nat (ticks 2),
      msg_text = ''Error: '' @ failure_reason e,
      msg_sender = SYSTEM, msg_timestamp = ticks 3, msg_isLoading = Some False,
      msg_urlContext = None\<rparr>"

text \<open>The shape the suggestion properties speak of, written from their wording: the parsed
  value is an object with a \<^verbatim>\<open>suggestions\<close> field that is a sequence; the strings among its
  elements are the ones kept.\<close>

fun well_shaped :: "json \<Rightarrow> json list option" where
  "well_shaped (JObject kvs) =
     (case map_of kvs ''suggestions'' of Some (JArray xs) \<Rightarrow> Some xs | _ \<Rightarrow> None)"
| "well_shaped v = None"

fun is_JString :: "json \<Rightarrow> bool" where
  "is_JString (JString s) = True"
| "is_JString v = False"

text \<open>A sample response body, a fence block with a language tag between white space, and
  parsers for the samples: one that knows the sample's content, one that rejects every
  string.\<close>

definition sample_json :: string where
  \<open>sample_json = ''{"suggestions":["a",1,"b","c","d","e"]}''\<close>

definition sample_body :: string where
  "sample_body = '' '' @ fence @ ''json'' @ [CHR 0x0A] @ sample_json @ [CHR 0x0A] @ fence @ [CHR 0x0A]"

definition sample_JSON_parse :: "string \<Rightarrow> json option" where
  "sample_JSON_parse s =
     (if s = sample_json
      then Some (JObject [(''suggestions'',
             JArray [JString ''a'', JNumber 1, JString ''b'', JString ''c'', JString ''d'',
                     JString ''e''])])
      else None)"

definition rejecting_JSON_parse :: "string \<Rightarrow> json option" where
  "rejecting_JSON_parse s = None"

text \<open>Sample services and clock, and the first render after its welcome effect.\<close>

definition sample_service :: generate_service where
  "sample_service query urlStrings docContents =
     Fulfilled \<lparr>resp_text = Some ''X is ...'', urlContextMetadata = None\<rparr>"

definition failing_service :: generate_service where
  "failing_service query urlStrings docContents = Rejected (JsError ''quota exceeded'')"

definition nullish_service :: generate_service where
  "nullish_service query urlStrings docContents = Rejected Nullish"

definition sample_ticks :: "nat \<Rightarrow> nat" where
  "sample_ticks n = 1000 + n"

text \<open>Sample courses of events from the first render. In the first a query is sent and its
  request is in flight. In the second the suggestion fetch of the first render is in flight. In
  the third a URL is added while that fetch is in flight, which starts a second fetch, and then
  one of the two fetches settles.\<close>

definition chat_trace :: "event list" where
  "chat_trace =
     [EvWelcomeEffect (\<lambda>n. 900 + n), EvSuggestionsEffect,
      EvFetchSettles (\<lambda>n. 950 + n) (Fulfilled None),
      EvSendMessage sample_ticks ''What is x?'']"

definition fetch_trace :: "event list" where
  "fetch_trace = [EvWelcomeEffect (\<lambda>n. 900 + n), EvSuggestionsEffect]"

definition overlap_trace :: "event list" where
  "overlap_trace =
     [EvWelcomeEffect (\<lambda>n. 900 + n), EvSuggestionsEffect,
      EvAddUrl ''https://a.example/x'',
      EvWelcomeEffect (\<lambda>n. 920 + n), EvSuggestionsEffect,
      EvFetchSettles (\<lambda>n. 950 + n) (Fulfilled None)]"

definition welcomed_state :: app_state where
  "welcomed_state = welcomeEffect (Some ''key'') (\<lambda>n. 900 + n) initial_state"

section \<open>Auxiliary facts\<close>

lemma list_all2_map_same: "list_all2 P xs (map f xs) \<longleftrightarrow> (\<forall>x\<in>set xs. P x (f x))"
  by (induction xs) auto

lemma find_Some_holds: "find P xs = Some y \<Longrightarrow> P y \<and> y \<in> set xs"
  by (induction xs) (auto split: if_splits)

lemma find_map_keeps:
  "(\<And>x. P (f x) = P x) \<Longrightarrow> find P (map f xs) = map_option f (find P xs)"
  by (induction xs) auto

lemma activeGroup_None_iff:
  "activeGroup st = None \<longleftrightarrow> (\<forall>g\<in>set (urlGroups st). group_id g \<noteq> activeUrlGroupId st)"
  by (auto simp: activeGroup_def find_None_iff)

lemma filter_url_absent:
  "u \<notin> url ` set xs \<Longrightarrow> filter (\<lambda>item. url item \<noteq> u) xs = xs"
  by (induction xs) auto

lemma url_count_ex: "list_ex (\<lambda>item. url item = u) xs \<longleftrightarrow> 0 < url_count u xs"
  by (induction xs) (auto simp: url_count_def)

lemma url_count_append: "url_count u (xs @ ys) = url_count u xs + url_count u ys"
  by (simp add: url_count_def)

section \<open>The active-group pointer\<close>

text \<open>
  C1 (as stated, refuted). The claim says that \<^verbatim>\<open>setActiveGroup(g)\<close> with an id \<^verbatim>\<open>g\<close> of no
  group leaves the active pointer unchanged. On the state of the first render the id
  \<^verbatim>\<open>no-such-group\<close> is the id of no group, and the setter moves the pointer to it.
\<close>

theorem setActiveGroup_unknown_counterexample:
  "''no-such-group'' \<notin> set (map group_id (urlGroups initial_state)) \<and>
   activeUrlGroupId (setActiveUrlGroupId ''no-such-group'' initial_state) \<noteq>
     activeUrlGroupId initial_state"
  by (simp add: setActiveUrlGroupId_def initial_state_def INITIAL_URL_GROUPS_def)

text \<open>
  C1 (amended). \<^verbatim>\<open>setActiveGroup(g)\<close> sets the active pointer to \<^verbatim>\<open>g\<close> for every \<^verbatim>\<open>g\<close> and
  changes nothing else; it has no error to report (the document error is as before). When \<^verbatim>\<open>g\<close>
  is the id of no group, the active group then resolves to none, with empty URL and document
  lists. Every value the group selector offers resolves to a group with that id.
\<close>

theorem setActiveGroup_sets_pointer:
  "setActiveUrlGroupId g st = st\<lparr>activeUrlGroupId := g\<rparr> \<and>
   activeUrlGroupId (setActiveUrlGroupId g st) = g \<and>
   urlGroups (setActiveUrlGroupId g st) = urlGroups st \<and>
   docError (setActiveUrlGroupId g st) = docError st \<and>
   (g \<notin> set (map group_id (urlGroups st)) \<longrightarrow>
      activeGroup (setActiveUrlGroupId g st) = None \<and>
      currentUrlsForChat (setActiveUrlGroupId g st) = [] \<and>
      currentDocsForChat (setActiveUrlGroupId g st) = []) \<and>
   (g \<in> set (group_select_options st) \<longrightarrow>
      (\<exists>group \<in> set (urlGroups st).
         group_id group = g \<and> activeGroup (setActiveUrlGroupId g st) = Some group))"
proof -
  have none: "activeGroup (setActiveUrlGroupId g st) = None"
    if "g \<notin> set (map group_id (urlGroups st))"
    using that by (auto simp: activeGroup_None_iff setActiveUrlGroupId_def)
  have some: "\<exists>group \<in> set (urlGroups st).
         group_id group = g \<and> activeGroup (setActiveUrlGroupId g st) = Some group"
    if "g \<in> set (group_select_options st)"
  proof -
    from that obtain x where "x \<in> set (urlGroups st)" "group_id x = g"
      by (auto simp: group_select_options_def)
    then have "find (\<lambda>group. group_id group = g) (urlGroups st) \<noteq> None"
      by (auto simp: find_None_iff)
    then obtain y where y: "find (\<lambda>group. group_id group = g) (urlGroups st) = Some y"
      by auto
    then have "y \<in> set (urlGroups st) \<and> group_id y = g"
      by (auto dest: find_Some_holds)
    with y show ?thesis
      by (auto simp: activeGroup_def setActiveUrlGroupId_def)
  qed
  show ?thesis
    using none some
    by (simp add: setActiveUrlGroupId_def currentUrlsForChat_def currentDocsForChat_def)
qed

text \<open>C1 (amended), on the first render: an unknown id and an id the selector offers.\<close>

theorem setActiveGroup_sets_pointer_witness:
  "''no-such-group'' \<notin> set (map group_id (urlGroups initial_state)) \<and>
   activeUrlGroupId (setActiveUrlGroupId ''no-such-group'' initial_state) = ''no-such-group'' \<and>
   currentUrlsForChat (setActiveUrlGroupId ''no-such-group'' initial_state) = [] \<and>
   ''model-capabilities'' \<in> set (group_select_options initial_state) \<and>
   (\<exists>group \<in> set (urlGroups initial_state).
      group_id group = ''model-capabilities'' \<and>
      activeGroup (setActiveUrlGroupId ''model-capabilities'' initial_state) = Some group)"
proof -
  have unknown: "''no-such-group'' \<notin> set (map group_id (urlGroups initial_state))"
    by (simp add: initial_state_def INITIAL_URL_GROUPS_def)
  have offered: "''model-capabilities'' \<in> set (group_select_options initial_state)"
    by (simp add: initial_state_def INITIAL_URL_GROUPS_def group_select_options_def)
  show ?thesis
    using unknown offered
      setActiveGroup_sets_pointer [of "''no-such-group''" initial_state]
      setActiveGroup_sets_pointer [of "''model-capabilities''" initial_state]
    by blast
qed

section \<open>Frames of the store mutations\<close>

lemma handleAddUrl_frame: "urls_frame st (handleAddUrl u st)"
  by (simp add: urls_frame_def handleAddUrl_def list_all2_map_same)

lemma handleRemoveUrl_frame: "urls_frame st (handleRemoveUrl u st)"
  by (simp add: urls_frame_def handleRemoveUrl_def list_all2_map_same)

lemma handleRemoveDocument_frame: "documents_frame st (handleRemoveDocument d st)"
  by (simp add: documents_frame_def handleRemoveDocument_def list_all2_map_same)

lemma handleAddDocument_frame: "documents_frame st (handleAddDocument dec now file st)"
  by (simp add: documents_frame_def handleAddDocument_def list_all2_map_same Let_def list_all2_refl
      split: sum.splits)

lemma handleAddUrl_no_active:
  "activeGroup st = None \<Longrightarrow> urlGroups (handleAddUrl u st) = urlGroups st"
  by (simp add: activeGroup_None_iff handleAddUrl_def map_idI)

lemma handleRemoveUrl_no_active:
  "activeGroup st = None \<Longrightarrow> urlGroups (handleRemoveUrl u st) = urlGroups st"
  by (simp add: activeGroup_None_iff handleRemoveUrl_def map_idI)

lemma handleRemoveDocument_no_active:
  "activeGroup st = None \<Longrightarrow> urlGroups (handleRemoveDocument d st) = urlGroups st"
  by (simp add: activeGroup_None_iff handleRemoveDocument_def map_idI)

lemma handleAddDocument_no_active:
  "activeGroup st = None \<Longrightarrow> urlGroups (handleAddDocument dec now file st) = urlGroups st"
  by (simp add: activeGroup_None_iff handleAddDocument_def map_idI Let_def split: sum.splits)

text \<open>
  C10. Each of the four store mutations leaves every group that is not the active one as it
  was, and changes in the active group at most the list it targets: the URL operations keep id,
  name and documents of every group, the document operations keep id, name and URLs. When the
  active id resolves to no group, all four leave the group collection as it was.
\<close>

theorem store_mutations_frame:
  "urls_frame st (handleAddUrl u st) \<and>
   urls_frame st (handleRemoveUrl u st) \<and>
   documents_frame st (handleAddDocument dec now file st) \<and>
   documents_frame st (handleRemoveDocument d st) \<and>
   (activeGroup st = None \<longrightarrow>
      urlGroups (handleAddUrl u st) = urlGroups st \<and>
      urlGroups (handleRemoveUrl u st) = urlGroups st \<and>
      urlGroups (handleAddDocument dec now file st) = urlGroups st \<and>
      urlGroups (handleRemoveDocument d st) = urlGroups st)"
  by (simp add: handleAddUrl_frame handleRemoveUrl_frame handleAddDocument_frame
      handleRemoveDocument_frame handleAddUrl_no_active handleRemoveUrl_no_active
      handleAddDocument_no_active handleRemoveDocument_no_active)

text \<open>C10, on the first render (where adding a URL does change the collection) and on a state
  whose active id resolves to no group.\<close>

theorem store_mutations_frame_witness:
  "urls_frame initial_state (handleAddUrl ''https://a.example/x'' initial_state) \<and>
   urlGroups (handleAddUrl ''https://a.example/x'' initial_state) \<noteq> urlGroups initial_state \<and>
   documents_frame initial_state
     (handleAddDocument sample_decoders 17 (sample_file ''Notes.PDF'') initial_state) \<and>
   activeGroup (setActiveUrlGroupId ''none'' initial_state) = None \<and>
   urlGroups (handleRemoveDocument ''doc-1-a.pdf'' (setActiveUrlGroupId ''none'' initial_state))
     = urlGroups (setActiveUrlGroupId ''none'' initial_state)"
proof -
  have changed:
    "urlGroups (handleAddUrl ''https://a.example/x'' initial_state) \<noteq> urlGroups initial_state"
    by code_simp
  have no_active: "activeGroup (setActiveUrlGroupId ''none'' initial_state) = None"
    by code_simp
  show ?thesis
    using changed no_active
      store_mutations_frame [of initial_state "''https://a.example/x''"
        sample_decoders 17 "sample_file ''Notes.PDF''" "''doc-1-a.pdf''"]
      store_mutations_frame [of "setActiveUrlGroupId ''none'' initial_state" "''https://a.example/x''"
        sample_decoders 17 "sample_file ''Notes.PDF''" "''doc-1-a.pdf''"]
    by blast
qed

section \<open>Adding and removing a URL\<close>

text \<open>
  C9. When no active group holds the URL string \<^verbatim>\<open>u\<close>, adding \<^verbatim>\<open>u\<close> and then removing \<^verbatim>\<open>u\<close>
  gives back the state before: every URL list has the same entries in the same order (also
  when the add was refused because the list was full).
\<close>

theorem add_remove_url_roundtrip:
  assumes "\<forall>g\<in>set (urlGroups st). group_id g = activeUrlGroupId st \<longrightarrow> u \<notin> url ` set (urls g)"
  shows "handleRemoveUrl u (handleAddUrl u st) = st"
proof -
  have "map ((\<lambda>group. if group_id group = activeUrlGroupId st
             then group\<lparr>urls := filter (\<lambda>item. url item \<noteq> u) (urls group)\<rparr> else group) \<circ>
         (\<lambda>group.
       if group_id group = activeUrlGroupId st then
         (if length (urls group) < MAX_URLS \<and> \<not> list_ex (\<lambda>item. url item = u) (urls group)
          then group\<lparr>urls := urls group @ [\<lparr>url = u, title = u\<rparr>]\<rparr>
          else group)
       else group)) (urlGroups st) = urlGroups st"
    using assms by (intro map_idI) (auto simp: filter_url_absent)
  then show ?thesis
    by (simp add: handleRemoveUrl_def handleAddUrl_def)
qed

text \<open>C9, on the first render, where the add is accepted and changes the state.\<close>

theorem add_remove_url_roundtrip_witness:
  "''https://a.example/x'' \<notin> url ` set (currentUrlsForChat initial_state) \<and>
   handleAddUrl ''https://a.example/x'' initial_state \<noteq> initial_state \<and>
   handleRemoveUrl ''https://a.example/x'' (handleAddUrl ''https://a.example/x'' initial_state)
     = initial_state"
proof -
  have absent: "\<forall>g\<in>set (urlGroups initial_state).
      group_id g = activeUrlGroupId initial_state \<longrightarrow> ''https://a.example/x'' \<notin> url ` set (urls g)"
    by (simp add: initial_state_def INITIAL_URL_GROUPS_def GEMINI_DOCS_KNOWLEDGE_URLS_def mk_urls_def)
  have current: "''https://a.example/x'' \<notin> url ` set (currentUrlsForChat initial_state)"
    by (simp add: currentUrlsForChat_def activeGroup_def initial_state_def INITIAL_URL_GROUPS_def
        GEMINI_DOCS_KNOWLEDGE_URLS_def mk_urls_def)
  have changed: "handleAddUrl ''https://a.example/x'' initial_state \<noteq> initial_state"
    by code_simp
  show ?thesis
    using current changed add_remove_url_roundtrip [OF absent] by blast
qed

section \<open>Capacity of the lists\<close>

lemma handleAddUrl_within:
  "within_capacity st \<Longrightarrow> within_capacity (handleAddUrl u st)"
  by (auto simp: within_capacity_def handleAddUrl_def list_all_iff)

lemma handleAddDocument_within:
  "within_capacity st \<Longrightarrow> within_capacity (handleAddDocument dec now file st)"
  by (auto simp: within_capacity_def handleAddDocument_def list_all_iff Let_def split: sum.splits)

lemma addUrl_within:
  "within_capacity (snd s) \<Longrightarrow> within_capacity (snd (addUrl isValidUrl u s))"
  by (cases s) (simp add: addUrl_def KnowledgeBaseManager_handleAddUrl_def handleAddUrl_within)

lemma add_step_within:
  "within_capacity (snd s) \<Longrightarrow> within_capacity (snd (add_step isValidUrl dec x s))"
  by (cases s; cases x) (simp_all add: addUrl_within handleAddDocument_within)

lemma add_run_within:
  "within_capacity (snd s) \<Longrightarrow> within_capacity (snd (add_run isValidUrl dec xs s))"
  by (induction xs arbitrary: s) (simp_all add: add_step_within)

lemma initial_within: "within_capacity initial_state"
  by (simp add: within_capacity_def initial_state_def INITIAL_URL_GROUPS_def MAX_URLS_def
      MAX_DOCS_def GEMINI_DOCS_KNOWLEDGE_URLS_def MODEL_CAPABILITIES_KNOWLEDGE_URLS_def mk_urls_def)

lemma addUrl_at_capacity:
  assumes "MAX_URLS \<le> length (currentUrlsForChat st)"
  shows "snd (addUrl isValidUrl u (k, st)) = st \<and>
         urlError (fst (addUrl isValidUrl u (k, st))) \<noteq> None \<and>
         (trim u \<noteq> [] \<and> isValidUrl u \<longrightarrow>
            urlError (fst (addUrl isValidUrl u (k, st))) = Some max_urls_msg)"
  using assms
  by (simp add: addUrl_def KnowledgeBaseManager_handleAddUrl_def onChangeUrlInput_def)

lemma handleAddUrl_at_capacity:
  "list_all2 (\<lambda>g g'. MAX_URLS \<le> length (urls g) \<longrightarrow> g' = g)
     (urlGroups st) (urlGroups (handleAddUrl u st))"
  by (simp add: handleAddUrl_def list_all2_map_same)

lemma active_docs_full:
  assumes "MAX_DOCS \<le> length (currentDocsForChat st)"
  shows "list_ex (\<lambda>group. group_id group = activeUrlGroupId st \<and>
            \<not> length (documents group) < MAX_DOCS) (urlGroups st)"
proof (cases "activeGroup st")
  case None
  with assms show ?thesis by (simp add: currentDocsForChat_def MAX_DOCS_def)
next
  case (Some g)
  then have "g \<in> set (urlGroups st) \<and> group_id g = activeUrlGroupId st"
    by (auto simp: activeGroup_def find_Some_iff)
  moreover from Some assms have "\<not> length (documents g) < MAX_DOCS"
    by (simp add: currentDocsForChat_def)
  ultimately show ?thesis by (auto simp: list_ex_iff)
qed

lemma handleAddDocument_reports:
  assumes "MAX_DOCS \<le> length (currentDocsForChat st)"
  shows "docError (handleAddDocument dec now file st) \<noteq> None"
  using active_docs_full [OF assms]
  by (simp add: handleAddDocument_def Let_def split: sum.splits)

lemma handleAddDocument_reports_max:
  assumes "MAX_DOCS \<le> length (currentDocsForChat st)" "extract_text dec file = Inr t"
  shows "docError (handleAddDocument dec now file st) = Some max_docs_msg"
  using active_docs_full [OF assms(1)] assms(2)
  by (simp add: handleAddDocument_def Let_def)

lemma handleAddDocument_at_capacity:
  "list_all2 (\<lambda>g g'. MAX_DOCS \<le> length (documents g) \<longrightarrow> g' = g)
     (urlGroups st) (urlGroups (handleAddDocument dec now file st))"
  by (simp add: handleAddDocument_def list_all2_map_same Let_def list_all2_refl split: sum.splits)

text \<open>
  C2. The groups of the first render are within capacity (at most 20 URLs and at most 5
  documents each), and every sequence of URL submissions and document uploads keeps a state
  within capacity. A URL submitted while the active group holds 20 URLs changes no state and
  leaves an error in the form (the capacity error when the input is not blank and parses), and
  the store's own \<^verbatim>\<open>handleAddUrl\<close> keeps every full group as it is. A document uploaded while
  the active group holds 5 documents leaves a document error (the capacity error when the
  extraction succeeded) and keeps every full group as it is.
\<close>

theorem capacity_invariant:
  "within_capacity initial_state \<and>
   (within_capacity st \<longrightarrow> within_capacity (snd (add_run isValidUrl dec ops (k, st)))) \<and>
   (MAX_URLS \<le> length (currentUrlsForChat st) \<longrightarrow>
      snd (addUrl isValidUrl u (k, st)) = st \<and>
      urlError (fst (addUrl isValidUrl u (k, st))) \<noteq> None \<and>
      (trim u \<noteq> [] \<and> isValidUrl u \<longrightarrow>
         urlError (fst (addUrl isValidUrl u (k, st))) = Some max_urls_msg)) \<and>
   list_all2 (\<lambda>g g'. MAX_URLS \<le> length (urls g) \<longrightarrow> g' = g)
     (urlGroups st) (urlGroups (handleAddUrl u st)) \<and>
   (MAX_DOCS \<le> length (currentDocsForChat st) \<longrightarrow>
      docError (handleAddDocument dec now file st) \<noteq> None \<and>
      (\<forall>t. extract_text dec file = Inr t \<longrightarrow>
         docError (handleAddDocument dec now file st) = Some max_docs_msg)) \<and>
   list_all2 (\<lambda>g g'. MAX_DOCS \<le> length (documents g) \<longrightarrow> g' = g)
     (urlGroups st) (urlGroups (handleAddDocument dec now file st))"
proof -
  have run: "within_capacity st \<longrightarrow> within_capacity (snd (add_run isValidUrl dec ops (k, st)))"
    using add_run_within [of "(k, st)" isValidUrl dec ops] by simp
  show ?thesis
    using run initial_within addUrl_at_capacity [of st isValidUrl u k]
      handleAddUrl_at_capacity [of st u] handleAddDocument_at_capacity [of st dec now "file"]
      handleAddDocument_reports [of st dec now "file"] handleAddDocument_reports_max [of st dec "file" _ now]
    by blast
qed

text \<open>C2, on a group filled to 20 URLs and on a group filled to 5 documents.\<close>

theorem capacity_invariant_witness:
  "within_capacity (snd (filled_state 5)) \<and>
   within_capacity (snd (add_run (\<lambda>u. True) sample_decoders
      [AddUrl ''https://a.example/x'', AddDocument 17 (sample_file ''Notes.PDF'')]
      (filled_state 5))) \<and>
   MAX_URLS \<le> length (currentUrlsForChat (snd (filled_state 5))) \<and>
   snd (addUrl (\<lambda>u. True) ''https://a.example/x'' (filled_state 5)) = snd (filled_state 5) \<and>
   urlError (fst (addUrl (\<lambda>u. True) ''https://a.example/x'' (filled_state 5))) = Some max_urls_msg \<and>
   MAX_DOCS \<le> length (currentDocsForChat five_documents_state) \<and>
   docError (handleAddDocument sample_decoders 6 (sample_file ''More.docx'') five_documents_state)
     = Some max_docs_msg"
proof -
  have within: "within_capacity (snd (filled_state 5))" by code_simp
  have full: "MAX_URLS \<le> length (currentUrlsForChat (snd (filled_state 5)))" by code_simp
  have typed: "trim ''https://a.example/x'' \<noteq> []" by code_simp
  have docs: "MAX_DOCS \<le> length (currentDocsForChat five_documents_state)" by code_simp
  have extracted: "extract_text sample_decoders (sample_file ''More.docx'') = Inr ''Hello world''"
    by code_simp
  have pair: "(fst (filled_state 5), snd (filled_state 5)) = filled_state 5" by simp
  show ?thesis
    using within full typed docs extracted
      capacity_invariant [of "snd (filled_state 5)" "\<lambda>u. True" sample_decoders
        "[AddUrl ''https://a.example/x'', AddDocument 17 (sample_file ''Notes.PDF'')]"
        "fst (filled_state 5)" "''https://a.example/x''" 6 "sample_file ''More.docx''"]
      capacity_invariant [of five_documents_state "\<lambda>u. True" sample_decoders
        "[]" empty_form "''https://a.example/x''" 6 "sample_file ''More.docx''"]
    unfolding pair by blast
qed

section \<open>Adding a URL twice\<close>

lemma activeGroup_handleAddUrl:
  "activeGroup (handleAddUrl u st) =
     map_option (\<lambda>group.
       if length (urls group) < MAX_URLS \<and> \<not> list_ex (\<lambda>item. url item = u) (urls group)
       then group\<lparr>urls := urls group @ [\<lparr>url = u, title = u\<rparr>]\<rparr> else group) (activeGroup st)"
proof -
  let ?f = "\<lambda>group.
       if group_id group = activeUrlGroupId st then
         (if length (urls group) < MAX_URLS \<and> \<not> list_ex (\<lambda>item. url item = u) (urls group)
          then group\<lparr>urls := urls group @ [\<lparr>url = u, title = u\<rparr>]\<rparr>
          else group)
       else group"
  have "find (\<lambda>group. group_id group = activeUrlGroupId st) (map ?f (urlGroups st)) =
        map_option ?f (find (\<lambda>group. group_id group = activeUrlGroupId st) (urlGroups st))"
    by (rule find_map_keeps) simp
  moreover have "map_option ?f (find (\<lambda>group. group_id group = activeUrlGroupId st) (urlGroups st))
      = map_option (\<lambda>group.
       if length (urls group) < MAX_URLS \<and> \<not> list_ex (\<lambda>item. url item = u) (urls group)
       then group\<lparr>urls := urls group @ [\<lparr>url = u, title = u\<rparr>]\<rparr> else group)
        (find (\<lambda>group. group_id group = activeUrlGroupId st) (urlGroups st))"
    by (cases "find (\<lambda>group. group_id group = activeUrlGroupId st) (urlGroups st)")
       (auto dest: find_Some_holds)
  ultimately show ?thesis
    by (simp add: activeGroup_def handleAddUrl_def)
qed

lemma addUrl_accepts:
  assumes "trim u \<noteq> []" "isValidUrl u" "activeGroup st = Some g"
    "length (urls g) < MAX_URLS" "url_count u (urls g) = 0"
  shows "addUrl isValidUrl u (k, st) =
           (k\<lparr>currentUrlInput := [], urlError := None\<rparr>, handleAddUrl u st) \<and>
         activeGroup (handleAddUrl u st) = Some (g\<lparr>urls := urls g @ [\<lparr>url = u, title = u\<rparr>]\<rparr>)"
  using assms
  by (simp add: addUrl_def KnowledgeBaseManager_handleAddUrl_def onChangeUrlInput_def
      currentUrlsForChat_def url_count_ex activeGroup_handleAddUrl)

lemma addUrl_refuses:
  assumes "trim u \<noteq> []" "isValidUrl u" "activeGroup st = Some g"
    "MAX_URLS \<le> length (urls g) \<or> 0 < url_count u (urls g)"
  shows "addUrl isValidUrl u (k, st) =
           (k\<lparr>currentUrlInput := u,
              urlError := Some (if MAX_URLS \<le> length (urls g) then max_urls_msg
                                else duplicate_url_msg)\<rparr>, st)"
  using assms
  by (auto simp: addUrl_def KnowledgeBaseManager_handleAddUrl_def onChangeUrlInput_def
      currentUrlsForChat_def url_count_ex)

text \<open>
  C3 (as stated, refuted). The claim says that adding a URL string twice always yields exactly
  one entry with that URL and a duplicate error on the second attempt. On a group that already
  holds 20 URLs both attempts are refused and no entry has the URL; on a group that holds 19
  URLs the first attempt fills the group, and the second attempt reports the capacity error,
  which is not the duplicate error.
\<close>

theorem add_url_twice_counterexample:
  "url_count ''https://a.example/x''
     (currentUrlsForChat (snd (addUrl (\<lambda>u. True) ''https://a.example/x''
        (addUrl (\<lambda>u. True) ''https://a.example/x'' (filled_state 5))))) = 0 \<and>
   urlError (fst (addUrl (\<lambda>u. True) ''https://a.example/x''
        (addUrl (\<lambda>u. True) ''https://a.example/x'' (filled_state 4)))) = Some max_urls_msg \<and>
   max_urls_msg \<noteq> duplicate_url_msg"
  by code_simp

text \<open>
  C3 (amended). Let the URL string be not blank and accepted by the URL parser, and let the
  active group hold it at most once and either have room for it or hold it already. Then after
  two submissions of the string the active group holds exactly one entry with that URL; the
  second submission does not change the application state, and it reports an error: the
  capacity error when the group now holds 20 URLs, the duplicate error otherwise.
\<close>

theorem add_url_twice:
  assumes "trim u \<noteq> []" and "isValidUrl u" and "activeGroup st = Some g"
    and "url_count u (urls g) \<le> 1"
    and "length (urls g) < MAX_URLS \<or> url_count u (urls g) = 1"
  shows "\<exists>g2. activeGroup (snd (addUrl isValidUrl u (addUrl isValidUrl u (k, st)))) = Some g2 \<and>
           url_count u (urls g2) = 1 \<and>
           snd (addUrl isValidUrl u (addUrl isValidUrl u (k, st))) = snd (addUrl isValidUrl u (k, st)) \<and>
           urlError (fst (addUrl isValidUrl u (addUrl isValidUrl u (k, st)))) =
             Some (if MAX_URLS \<le> length (urls g2) then max_urls_msg else duplicate_url_msg)"
proof (cases "url_count u (urls g) = 1")
  case True
  then have r: "MAX_URLS \<le> length (urls g) \<or> 0 < url_count u (urls g)" by simp
  show ?thesis
    using assms(3) True
    by (simp add: addUrl_refuses [where u = u and isValidUrl = isValidUrl and st = st and g = g, OF assms(1,2,3) r])
next
  case False
  with assms have room: "length (urls g) < MAX_URLS" and absent: "url_count u (urls g) = 0"
    by auto
  let ?g2 = "g\<lparr>urls := urls g @ [\<lparr>url = u, title = u\<rparr>]\<rparr>"
  have first: "addUrl isValidUrl u (k, st) =
           (k\<lparr>currentUrlInput := [], urlError := None\<rparr>, handleAddUrl u st)"
    and act: "activeGroup (handleAddUrl u st) = Some ?g2"
    using addUrl_accepts [of u isValidUrl st g k, OF assms(1,2,3) room absent] by simp_all
  have cnt: "url_count u (urls ?g2) = 1"
    using absent by (simp add: url_count_append) (simp add: url_count_def)
  then have r: "MAX_URLS \<le> length (urls ?g2) \<or> 0 < url_count u (urls ?g2)" by simp
  show ?thesis
    using act cnt
    by (simp add: first addUrl_refuses [where u = u and isValidUrl = isValidUrl and st = "handleAddUrl u st" and g = ?g2, OF assms(1,2) act r])
qed

text \<open>C3 (amended), on the first render.\<close>

theorem add_url_twice_witness:
  "trim ''https://a.example/x'' \<noteq> [] \<and>
   activeGroup initial_state = Some (INITIAL_URL_GROUPS ! 0) \<and>
   url_count ''https://a.example/x'' (urls (INITIAL_URL_GROUPS ! 0)) = 0 \<and>
   length (urls (INITIAL_URL_GROUPS ! 0)) < MAX_URLS \<and>
   (\<exists>g2. activeGroup (snd (addUrl (\<lambda>u. True) ''https://a.example/x''
             (addUrl (\<lambda>u. True) ''https://a.example/x'' (empty_form, initial_state)))) = Some g2 \<and>
          url_count ''https://a.example/x'' (urls g2) = 1 \<and>
          urlError (fst (addUrl (\<lambda>u. True) ''https://a.example/x''
             (addUrl (\<lambda>u. True) ''https://a.example/x'' (empty_form, initial_state)))) =
            Some (if MAX_URLS \<le> length (urls g2) then max_urls_msg else duplicate_url_msg))"
proof -
  have h1: "trim ''https://a.example/x'' \<noteq> []" by code_simp
  have h2: "activeGroup initial_state = Some (INITIAL_URL_GROUPS ! 0)" by code_simp
  have h3: "url_count ''https://a.example/x'' (urls (INITIAL_URL_GROUPS ! 0)) = 0" by code_simp
  have h4: "length (urls (INITIAL_URL_GROUPS ! 0)) < MAX_URLS" by code_simp
  have h5: "url_count ''https://a.example/x'' (urls (INITIAL_URL_GROUPS ! 0)) \<le> 1"
    using h3 by simp
  show ?thesis
    using h1 h2 h3 h4
      add_url_twice [of "''https://a.example/x''" "\<lambda>u. True" initial_state
        "INITIAL_URL_GROUPS ! 0" empty_form, OF h1 _ h2 h5] 
    by blast
qed


section \<open>Document uploads that fail\<close>

lemma extract_text_Inr:
  "extract_text dec file = Inr t \<longleftrightarrow> decode_text dec file = Inr t \<and> trim t \<noteq> []"
  by (auto simp: extract_text_def split: sum.splits)

lemma decode_text_supported:
  "decode_text dec file = Inr t \<Longrightarrow>
     endsWith (toLowerCase (file_name file)) ''.docx'' \<or>
     endsWith (toLowerCase (file_name file)) ''.pdf''"
  by (auto simp: decode_text_def split: outcome.splits if_splits)

lemma handleAddDocument_failed:
  "extract_text dec file = Inl e \<Longrightarrow>
     urlGroups (handleAddDocument dec now file st) = urlGroups st \<and>
     docError (handleAddDocument dec now file st) =
       Some (case e of
               JsError m \<Rightarrow> m
             | OtherValue m \<Rightarrow> ''Failed to read the content of this file.''
             | Nullish \<Rightarrow> ''Failed to read the content of this file.'')"
  by (simp add: handleAddDocument_def Let_def)

lemma unsupported_extract:
  assumes "\<not> endsWith (toLowerCase (file_name file)) ''.docx''"
    "\<not> endsWith (toLowerCase (file_name file)) ''.pdf''"
  shows "\<exists>e. extract_text dec file = Inl e \<and>
             (\<forall>b. file_arrayBuffer file = Fulfilled b \<longrightarrow> e = JsError unsupported_msg)"
  using assms by (auto simp: extract_text_def decode_text_def split: outcome.splits)

lemma blank_extract:
  "decode_text dec file = Inr t \<Longrightarrow> trim t = [] \<Longrightarrow>
     extract_text dec file = Inl (JsError empty_doc_msg)"
  by (simp add: extract_text_def)

lemma handleAddDocument_changed:
  assumes "urlGroups (handleAddDocument dec now file st) \<noteq> urlGroups st"
  shows "\<exists>t. decode_text dec file = Inr t \<and> trim t \<noteq> [] \<and>
      list_all2 (\<lambda>g g'. g' = g \<or> g' = g\<lparr>documents := documents g @ [newDocument now file t]\<rparr>)
        (urlGroups st) (urlGroups (handleAddDocument dec now file st))"
proof (cases "extract_text dec file")
  case (Inl e)
  with assms show ?thesis by (simp add: handleAddDocument_failed)
next
  case (Inr t)
  then have "decode_text dec file = Inr t \<and> trim t \<noteq> []"
    by (simp add: extract_text_Inr)
  moreover have "list_all2 (\<lambda>g g'. g' = g \<or> g' = g\<lparr>documents := documents g @ [newDocument now file t]\<rparr>)
        (urlGroups st) (urlGroups (handleAddDocument dec now file st))"
    using Inr by (simp add: handleAddDocument_def Let_def list_all2_map_same)
  ultimately show ?thesis by blast
qed

text \<open>
  C8. An upload whose file name ends, in lower case, neither in \<^verbatim>\<open>.docx\<close> nor in \<^verbatim>\<open>.pdf\<close>
  changes no group and leaves a document error, the unsupported-type error once the bytes of the
  file were read. An upload whose decoded text is empty or blank changes no group and leaves the
  empty-document error. Whenever an upload changes the group collection, the file name has one of
  the two extensions, the decoding succeeded with a text that is not blank, and each group is as
  before or has the new document with that text appended.
\<close>

theorem add_document_failures:
  "(\<not> endsWith (toLowerCase (file_name file)) ''.docx'' \<and>
    \<not> endsWith (toLowerCase (file_name file)) ''.pdf'' \<longrightarrow>
      urlGroups (handleAddDocument dec now file st) = urlGroups st \<and>
      docError (handleAddDocument dec now file st) \<noteq> None \<and>
      (\<forall>b. file_arrayBuffer file = Fulfilled b \<longrightarrow>
         docError (handleAddDocument dec now file st) = Some unsupported_msg)) \<and>
   (\<forall>t. decode_text dec file = Inr t \<and> trim t = [] \<longrightarrow>
      urlGroups (handleAddDocument dec now file st) = urlGroups st \<and>
      docError (handleAddDocument dec now file st) = Some empty_doc_msg) \<and>
   (urlGroups (handleAddDocument dec now file st) \<noteq> urlGroups st \<longrightarrow>
      (endsWith (toLowerCase (file_name file)) ''.docx'' \<or>
       endsWith (toLowerCase (file_name file)) ''.pdf'') \<and>
      (\<exists>t. decode_text dec file = Inr t \<and> trim t \<noteq> [] \<and>
         list_all2 (\<lambda>g g'. g' = g \<or> g' = g\<lparr>documents := documents g @ [newDocument now file t]\<rparr>)
           (urlGroups st) (urlGroups (handleAddDocument dec now file st))))"
proof (intro conjI impI allI)
  assume u: "\<not> endsWith (toLowerCase (file_name file)) ''.docx'' \<and>
    \<not> endsWith (toLowerCase (file_name file)) ''.pdf''"
  then obtain e where e: "extract_text dec file = Inl e"
    and eb: "\<forall>b. file_arrayBuffer file = Fulfilled b \<longrightarrow> e = JsError unsupported_msg"
    using unsupported_extract [of "file" dec] by blast
  show "urlGroups (handleAddDocument dec now file st) = urlGroups st"
    using handleAddDocument_failed [OF e] by simp
  show "docError (handleAddDocument dec now file st) \<noteq> None"
    using handleAddDocument_failed [OF e, of now st] by simp
  fix b assume "file_arrayBuffer file = Fulfilled b"
  with eb have "e = JsError unsupported_msg" by simp
  then show "docError (handleAddDocument dec now file st) = Some unsupported_msg"
    using handleAddDocument_failed [OF e, of now st] by simp
next
  fix t assume t: "decode_text dec file = Inr t \<and> trim t = []"
  then have e: "extract_text dec file = Inl (JsError empty_doc_msg)"
    by (simp add: blank_extract)
  show "urlGroups (handleAddDocument dec now file st) = urlGroups st"
    using handleAddDocument_failed [OF e] by simp
  show "docError (handleAddDocument dec now file st) = Some empty_doc_msg"
    using handleAddDocument_failed [OF e, of now st] by simp
next
  assume c: "urlGroups (handleAddDocument dec now file st) \<noteq> urlGroups st"
  from handleAddDocument_changed [OF c]
  show "\<exists>t. decode_text dec file = Inr t \<and> trim t \<noteq> [] \<and>
         list_all2 (\<lambda>g g'. g' = g \<or> g' = g\<lparr>documents := documents g @ [newDocument now file t]\<rparr>)
           (urlGroups st) (urlGroups (handleAddDocument dec now file st))" .
  then show "endsWith (toLowerCase (file_name file)) ''.docx'' \<or>
       endsWith (toLowerCase (file_name file)) ''.pdf''"
    using decode_text_supported by blast
qed

text \<open>C8, on a text file, on a PDF and a Word document without text, and on a PDF with
  text.\<close>

theorem add_document_failures_witness:
  "urlGroups (handleAddDocument sample_decoders 17 (sample_file ''notes.txt'') initial_state)
     = urlGroups initial_state \<and>
   docError (handleAddDocument sample_decoders 17 (sample_file ''notes.txt'') initial_state)
     = Some unsupported_msg \<and>
   decode_text blank_decoders (sample_file ''scan.pdf'') = Inr [] \<and>
   urlGroups (handleAddDocument blank_decoders 17 (sample_file ''scan.pdf'') initial_state)
     = urlGroups initial_state \<and>
   docError (handleAddDocument blank_decoders 17 (sample_file ''scan.pdf'') initial_state)
     = Some empty_doc_msg \<and>
   decode_text blank_decoders (sample_file ''scan.Docx'') = Inr '' '' \<and>
   docError (handleAddDocument blank_decoders 17 (sample_file ''scan.Docx'') initial_state)
     = Some empty_doc_msg \<and>
   urlGroups (handleAddDocument sample_decoders 17 (sample_file ''Notes.PDF'') initial_state)
     \<noteq> urlGroups initial_state \<and>
   (\<exists>t. decode_text sample_decoders (sample_file ''Notes.PDF'') = Inr t \<and> trim t \<noteq> [])"
proof -
  have ext: "\<not> endsWith (toLowerCase (file_name (sample_file ''notes.txt''))) ''.docx'' \<and>
    \<not> endsWith (toLowerCase (file_name (sample_file ''notes.txt''))) ''.pdf''"
    by code_simp
  have buf: "file_arrayBuffer (sample_file ''notes.txt'') = Fulfilled [1, 2, 3]"
    by (simp add: sample_file_def)
  have pdf: "decode_text blank_decoders (sample_file ''scan.pdf'') = Inr []" by code_simp
  have docx: "decode_text blank_decoders (sample_file ''scan.Docx'') = Inr '' ''" by code_simp
  have blank: "trim [] = []" "trim '' '' = []" by code_simp+
  have changed: "urlGroups (handleAddDocument sample_decoders 17 (sample_file ''Notes.PDF'') initial_state)
     \<noteq> urlGroups initial_state" by code_simp
  show ?thesis
    using ext buf pdf docx blank changed
      add_document_failures [of "sample_file ''notes.txt''" sample_decoders 17 initial_state]
      add_document_failures [of "sample_file ''scan.pdf''" blank_decoders 17 initial_state]
      add_document_failures [of "sample_file ''scan.Docx''" blank_decoders 17 initial_state]
      add_document_failures [of "sample_file ''Notes.PDF''" sample_decoders 17 initial_state]
    by blast
qed


section \<open>The chat request cycle\<close>

lemma map_replace_fresh:
  "list_all (\<lambda>m. msg_id m \<noteq> i) xs \<Longrightarrow> map (\<lambda>m. if msg_id m = i then r else m) xs = xs"
  by (induction xs) auto

lemma or_else_cases:
  "or_else v d = (case v of None \<Rightarrow> d | Some s \<Rightarrow> if s = [] then d else s)"
  by (simp add: or_else_def)

lemma resolved_eq:
  "expected_placeholder ticks
     \<lparr>msg_text := or_else (resp_text response) empty_response_text,
      msg_isLoading := Some False,
      msg_urlContext := urlContextMetadata response\<rparr> = expected_resolved ticks response"
  by (simp add: expected_placeholder_def expected_resolved_def or_else_def empty_response_text_def)

lemma failed_eq:
  "read_message e = Some message \<Longrightarrow>
   expected_placeholder ticks
     \<lparr>msg_text := ''Error: '' @ or_else message chat_failure_default,
      msg_sender := SYSTEM,
      msg_isLoading := Some False\<rparr> = expected_failed ticks e"
  by (cases e)
     (auto simp: expected_placeholder_def expected_failed_def or_else_def chat_failure_default_def
        failure_reason_def split: option.splits)

lemma start_accepted:
  assumes "trim query \<noteq> []" "\<not> isLoading st" "\<not> isFetchingSuggestions st" "truthy apiKey"
  shows "handleSendMessage_start apiKey ticks query st =
      (Some (expected_placeholder ticks),
       st\<lparr>isLoading := True, initialQuerySuggestions := [],
          chatMessages := chatMessages st @
            [expected_user_message ticks query, expected_placeholder ticks]\<rparr>)"
  using assms
  by (simp add: handleSendMessage_start_def expected_placeholder_def expected_user_message_def
      plain_message_def Let_def)

lemma settle_fulfilled:
  "chatMessages (handleSendMessage_settle (expected_placeholder ticks) (Fulfilled response) later) =
     map (\<lambda>m. if msg_id m = msg_id (expected_placeholder ticks)
              then expected_resolved ticks response else m) (chatMessages later)"
  by (simp add: handleSendMessage_settle_def resolved_eq)

lemma settle_rejected:
  assumes "e \<noteq> Nullish"
  shows "chatMessages (handleSendMessage_settle (expected_placeholder ticks) (Rejected e) later) =
     map (\<lambda>m. if msg_id m = msg_id (expected_placeholder ticks)
              then expected_failed ticks e else m) (chatMessages later)"
proof -
  from assms obtain message where m: "read_message e = Some message"
    by (cases e) auto
  show ?thesis
    by (simp add: handleSendMessage_settle_def Let_def m failed_eq [OF m, simplified])
qed

lemma settle_nullish:
  "handleSendMessage_settle ph (Rejected Nullish) later = later\<lparr>isLoading := False\<rparr>"
  by (simp add: handleSendMessage_settle_def)

lemma settle_clears: "isLoading (handleSendMessage_settle ph result later) = False"
  by (simp add: handleSendMessage_settle_def Let_def split: outcome.splits option.splits)

lemma user_id_differs:
  "msg_id (expected_user_message ticks query) \<noteq> msg_id (expected_placeholder ticks)"
  by (simp add: expected_user_message_def expected_placeholder_def)

lemma guard_returns:
  assumes "trim query = [] \<or> isLoading st \<or> isFetchingSuggestions st"
  shows "handleSendMessage_start apiKey ticks query st = (None, st) \<and>
         handleSendMessage apiKey service ticks query st = st"
  using assms by (auto simp: handleSendMessage_start_def handleSendMessage_def)

lemma settle_keeps_fetching:
  "isFetchingSuggestions (handleSendMessage_settle ph result later) = isFetchingSuggestions later"
  by (simp add: handleSendMessage_settle_def Let_def split: outcome.splits option.splits)

lemma start_flags:
  "handleSendMessage_start apiKey ticks query st = (r, st1) \<Longrightarrow>
     isFetchingSuggestions st1 = isFetchingSuggestions st \<and>
     (case r of None \<Rightarrow> isLoading st1 = isLoading st
              | Some ph \<Rightarrow> isLoading st1 \<and> \<not> isLoading st)"
  by (auto simp: handleSendMessage_start_def Let_def split: if_splits)

lemma fetch_start_flags:
  "suggestionsEffect_start apiKey st = (issued, st1) \<Longrightarrow>
     isLoading st1 = isLoading st \<and>
     (if issued then isFetchingSuggestions st1
      else isFetchingSuggestions st1 = isFetchingSuggestions st)"
  by (auto simp: suggestionsEffect_start_def fetchAndSetInitialSuggestions_start_def Let_def
      split: if_splits)

lemma fetch_settle_flags:
  "isLoading (fetchAndSetInitialSuggestions_settle JSON_parse ticks result st) = isLoading st \<and>
   \<not> isFetchingSuggestions (fetchAndSetInitialSuggestions_settle JSON_parse ticks result st)"
  by (auto simp: fetchAndSetInitialSuggestions_settle_def suggestions_from_text_def
      split: outcome.splits option.splits prod.splits if_splits json.splits)

lemma handleAddDocument_flags:
  "isLoading (handleAddDocument dec now file st) = isLoading st \<and>
   isFetchingSuggestions (handleAddDocument dec now file st) = isFetchingSuggestions st"
  by (simp add: handleAddDocument_def Let_def split: sum.splits)

lemma store_flags:
  "isLoading (welcomeEffect apiKey ticks st) = isLoading st"
  "isFetchingSuggestions (welcomeEffect apiKey ticks st) = isFetchingSuggestions st"
  "isLoading (setActiveUrlGroupId g st) = isLoading st"
  "isFetchingSuggestions (setActiveUrlGroupId g st) = isFetchingSuggestions st"
  "isLoading (handleAddUrl u st) = isLoading st"
  "isFetchingSuggestions (handleAddUrl u st) = isFetchingSuggestions st"
  "isLoading (handleRemoveUrl u st) = isLoading st"
  "isFetchingSuggestions (handleRemoveUrl u st) = isFetchingSuggestions st"
  "isLoading (handleRemoveDocument d st) = isLoading st"
  "isFetchingSuggestions (handleRemoveDocument d st) = isFetchingSuggestions st"
  by (simp_all add: welcomeEffect_def setActiveUrlGroupId_def handleAddUrl_def handleRemoveUrl_def
      handleRemoveDocument_def Let_def)

lemma fire_in_step: "in_step s \<Longrightarrow> in_step (fire apiKey JSON_parse e s)"
proof (cases e)
  case (EvSendMessage ticks query)
  obtain r st1 where h: "handleSendMessage_start apiKey ticks query (app s) = (r, st1)"
    by (cases "handleSendMessage_start apiKey ticks query (app s)")
  assume "in_step s"
  with start_flags [OF h] h EvSendMessage show ?thesis
    by (cases r) (auto simp: in_step_def)
next
  case (EvChatSettles i result)
  assume "in_step s"
  then show ?thesis
    using EvChatSettles
    by (cases "chat_pending s") (auto simp: in_step_def settle_clears settle_keeps_fetching)
next
  case EvSuggestionsEffect
  obtain issued st1 where h: "suggestionsEffect_start apiKey (app s) = (issued, st1)"
    by (cases "suggestionsEffect_start apiKey (app s)")
  assume "in_step s"
  with fetch_start_flags [OF h] h EvSuggestionsEffect show ?thesis
    by (cases issued) (auto simp: in_step_def)
next
  case (EvFetchSettles ticks result)
  assume "in_step s"
  then show ?thesis
    using EvFetchSettles fetch_settle_flags [of JSON_parse ticks result "app s"]
    by (auto simp: in_step_def)
qed (auto simp: in_step_def store_flags handleAddDocument_flags)

lemma run_in_step: "in_step s \<Longrightarrow> in_step (run apiKey JSON_parse evs s)"
  by (induction evs arbitrary: s) (simp_all add: fire_in_step)

lemma initial_in_step: "in_step initial_system"
  by (simp add: in_step_def initial_system_def initial_state_def)

lemma fire_keeps_fetching:
  "isFetchingSuggestions (app s) \<Longrightarrow> \<not> settles_fetch e \<Longrightarrow>
     isFetchingSuggestions (app (fire apiKey JSON_parse e s))"
proof (cases e)
  case (EvSendMessage ticks query)
  obtain r st1 where h: "handleSendMessage_start apiKey ticks query (app s) = (r, st1)"
    by (cases "handleSendMessage_start apiKey ticks query (app s)")
  assume "isFetchingSuggestions (app s)"
  with start_flags [OF h] h EvSendMessage show ?thesis
    by (cases r) auto
next
  case EvSuggestionsEffect
  obtain issued st1 where h: "suggestionsEffect_start apiKey (app s) = (issued, st1)"
    by (cases "suggestionsEffect_start apiKey (app s)")
  assume "isFetchingSuggestions (app s)"
  with fetch_start_flags [OF h] h EvSuggestionsEffect show ?thesis
    by (cases issued) auto
qed (auto simp: store_flags handleAddDocument_flags settle_keeps_fetching)

lemma run_keeps_fetching:
  "isFetchingSuggestions (app s) \<Longrightarrow> list_all (\<lambda>e. \<not> settles_fetch e) evs \<Longrightarrow>
     isFetchingSuggestions (app (run apiKey JSON_parse evs s))"
  by (induction evs arbitrary: s) (simp_all add: fire_keeps_fetching)

lemma fire_send_no_op:
  "trim query = [] \<or> isLoading (app s) \<or> isFetchingSuggestions (app s) \<Longrightarrow>
     fire apiKey JSON_parse (EvSendMessage ticks query) s = s"
  using guard_returns [of query "app s" apiKey ticks] by auto

text \<open>
  C4 (as stated, refuted). The claim says that a query sent while a suggestion fetch is in flight
  is a no-op. From the first render, let the fetch of the first render be in flight, let a URL
  be added, which starts a second fetch, and let one of the two fetches settle. Then one fetch is
  still in flight, and a query sent now is accepted: the log grows by two messages.
\<close>

theorem send_message_guard_counterexample:
  "fetches_pending (run (Some ''key'') sample_JSON_parse overlap_trace initial_system) = 1 \<and>
   length (chatMessages (app (fire (Some ''key'') sample_JSON_parse
        (EvSendMessage sample_ticks ''What is x?'')
        (run (Some ''key'') sample_JSON_parse overlap_trace initial_system)))) =
     length (chatMessages (app (run (Some ''key'') sample_JSON_parse overlap_trace initial_system)))
       + 2"
  by code_simp

text \<open>
  C4 (amended). A query whose trimmed value is empty, and any query sent while the chat flag or
  the suggestion flag is set, is a no-op: the handler returns before its first state update and
  the state, with its log, is the one before. In every state reached from the first render, the
  chat flag is set exactly while a chat request is in flight, and at most one is (single
  flight), so a query sent while a chat request is in flight is a no-op. The suggestion flag is
  set only while a suggestion fetch is in flight, and once set it stays set until a suggestion
  fetch settles, so a query sent after the start of a fetch and before any fetch settles is a
  no-op.
\<close>

theorem send_message_guard:
  "(trim query = [] \<or> isLoading st \<or> isFetchingSuggestions st \<longrightarrow>
      handleSendMessage_start apiKey ticks query st = (None, st) \<and>
      handleSendMessage apiKey service ticks query st = st) \<and>
   (chat_pending (run apiKey JSON_parse evs initial_system) \<noteq> []) =
      isLoading (app (run apiKey JSON_parse evs initial_system)) \<and>
   length (chat_pending (run apiKey JSON_parse evs initial_system)) \<le> 1 \<and>
   (chat_pending (run apiKey JSON_parse evs initial_system) \<noteq> [] \<longrightarrow>
      fire apiKey JSON_parse (EvSendMessage ticks query) (run apiKey JSON_parse evs initial_system) =
        run apiKey JSON_parse evs initial_system) \<and>
   (isFetchingSuggestions (app (run apiKey JSON_parse evs initial_system)) \<longrightarrow>
      0 < fetches_pending (run apiKey JSON_parse evs initial_system)) \<and>
   (isFetchingSuggestions (app s) \<and> list_all (\<lambda>e. \<not> settles_fetch e) later \<longrightarrow>
      isFetchingSuggestions (app (run apiKey JSON_parse later s)) \<and>
      fire apiKey JSON_parse (EvSendMessage ticks query) (run apiKey JSON_parse later s) =
        run apiKey JSON_parse later s)"
proof -
  let ?s = "run apiKey JSON_parse evs initial_system"
  have inv: "in_step ?s"
    by (rule run_in_step [OF initial_in_step])
  have a: "trim query = [] \<or> isLoading st \<or> isFetchingSuggestions st \<longrightarrow>
      handleSendMessage_start apiKey ticks query st = (None, st) \<and>
      handleSendMessage apiKey service ticks query st = st"
    using guard_returns by blast
  have b: "(chat_pending ?s \<noteq> []) = isLoading (app ?s)" and c: "length (chat_pending ?s) \<le> 1"
    and e: "isFetchingSuggestions (app ?s) \<longrightarrow> 0 < fetches_pending ?s"
    using inv by (auto simp: in_step_def)
  have d: "chat_pending ?s \<noteq> [] \<longrightarrow> fire apiKey JSON_parse (EvSendMessage ticks query) ?s = ?s"
    using b fire_send_no_op [of query ?s apiKey JSON_parse ticks] by blast
  have f: "isFetchingSuggestions (app s) \<and> list_all (\<lambda>e. \<not> settles_fetch e) later \<longrightarrow>
      isFetchingSuggestions (app (run apiKey JSON_parse later s)) \<and>
      fire apiKey JSON_parse (EvSendMessage ticks query) (run apiKey JSON_parse later s) =
        run apiKey JSON_parse later s"
    using run_keeps_fetching [of s later apiKey JSON_parse]
      fire_send_no_op [of query "run apiKey JSON_parse later s" apiKey JSON_parse ticks]
    by blast
  from a b c d e f show ?thesis by blast
qed


text \<open>C4 (amended), on a blank query, on a query sent while the request of an earlier query is
  in flight, and on a query sent after a URL was added while the first fetch is in flight.\<close>

theorem send_message_guard_witness:
  "trim ''   '' = [] \<and>
   handleSendMessage (Some ''key'') sample_service sample_ticks ''   '' welcomed_state
     = welcomed_state \<and>
   chat_pending (run (Some ''key'') sample_JSON_parse chat_trace initial_system) \<noteq> [] \<and>
   isLoading (app (run (Some ''key'') sample_JSON_parse chat_trace initial_system)) \<and>
   fire (Some ''key'') sample_JSON_parse (EvSendMessage sample_ticks ''again'')
       (run (Some ''key'') sample_JSON_parse chat_trace initial_system) =
     run (Some ''key'') sample_JSON_parse chat_trace initial_system \<and>
   isFetchingSuggestions (app (run (Some ''key'') sample_JSON_parse fetch_trace initial_system)) \<and>
   0 < fetches_pending (run (Some ''key'') sample_JSON_parse fetch_trace initial_system) \<and>
   fire (Some ''key'') sample_JSON_parse (EvSendMessage sample_ticks ''again'')
       (run (Some ''key'') sample_JSON_parse [EvAddUrl ''https://a.example/x'']
          (run (Some ''key'') sample_JSON_parse fetch_trace initial_system)) =
     run (Some ''key'') sample_JSON_parse [EvAddUrl ''https://a.example/x'']
       (run (Some ''key'') sample_JSON_parse fetch_trace initial_system)"
proof -
  have blank: "trim ''   '' = []" by code_simp
  have pending:
    "chat_pending (run (Some ''key'') sample_JSON_parse chat_trace initial_system) \<noteq> []"
    by code_simp
  have fetching:
    "isFetchingSuggestions (app (run (Some ''key'') sample_JSON_parse fetch_trace initial_system))"
    by code_simp
  have quiet: "list_all (\<lambda>e. \<not> settles_fetch e) [EvAddUrl ''https://a.example/x'']"
    by simp
  note blank_query = send_message_guard [where query = "''   ''" and st = welcomed_state
      and apiKey = "Some ''key''" and ticks = sample_ticks and service = sample_service
      and JSON_parse = sample_JSON_parse and evs = chat_trace
      and s = "run (Some ''key'') sample_JSON_parse fetch_trace initial_system"
      and later = "[EvAddUrl ''https://a.example/x'']"]
  note chat = send_message_guard [where query = "''again''" and st = welcomed_state
      and apiKey = "Some ''key''" and ticks = sample_ticks and service = sample_service
      and JSON_parse = sample_JSON_parse and evs = chat_trace
      and s = "run (Some ''key'') sample_JSON_parse fetch_trace initial_system"
      and later = "[EvAddUrl ''https://a.example/x'']"]
  note fetch = send_message_guard [where query = "''again''" and st = welcomed_state
      and apiKey = "Some ''key''" and ticks = sample_ticks and service = sample_service
      and JSON_parse = sample_JSON_parse and evs = fetch_trace
      and s = "run (Some ''key'') sample_JSON_parse fetch_trace initial_system"
      and later = "[EvAddUrl ''https://a.example/x'']"]
  from blank_query blank
  have w1: "handleSendMessage (Some ''key'') sample_service sample_ticks ''   '' welcomed_state
     = welcomed_state"
    by blast
  from chat pending
  have w2: "isLoading (app (run (Some ''key'') sample_JSON_parse chat_trace initial_system))"
    and w3: "fire (Some ''key'') sample_JSON_parse (EvSendMessage sample_ticks ''again'')
       (run (Some ''key'') sample_JSON_parse chat_trace initial_system) =
     run (Some ''key'') sample_JSON_parse chat_trace initial_system"
    by blast+
  from fetch fetching
  have w4: "0 < fetches_pending (run (Some ''key'') sample_JSON_parse fetch_trace initial_system)"
    by blast
  from fetch fetching quiet
  have w5: "fire (Some ''key'') sample_JSON_parse (EvSendMessage sample_ticks ''again'')
       (run (Some ''key'') sample_JSON_parse [EvAddUrl ''https://a.example/x'']
          (run (Some ''key'') sample_JSON_parse fetch_trace initial_system)) =
     run (Some ''key'') sample_JSON_parse [EvAddUrl ''https://a.example/x'']
       (run (Some ''key'') sample_JSON_parse fetch_trace initial_system)"
    by blast
  from blank w1 pending w2 w3 fetching w4 w5 show ?thesis by (intro conjI)
qed

text \<open>
  C5. Let the query be accepted: not blank when trimmed, nothing in flight, a credential
  configured. Then the handler appends to the log the user message with the literal query and,
  after it, the placeholder model message with \<^verbatim>\<open>isLoading = true\<close>, and nothing else.
  When the request is fulfilled, on whatever log is current then, each entry with the
  placeholder's id becomes the resolved message (the response text, or the fallback when the text
  is absent or empty; \<^verbatim>\<open>isLoading = false\<close>; the returned retrieval metadata) and every other
  entry stays as it is. When nothing else touched the log and no earlier entry has the
  placeholder's id, the log at the end is the log before followed by the user message and the
  resolved message.
\<close>

theorem send_message_success:
  assumes "trim query \<noteq> []" and "\<not> isLoading st" and "\<not> isFetchingSuggestions st"
    and "truthy apiKey"
  shows "handleSendMessage_start apiKey ticks query st =
      (Some (expected_placeholder ticks),
       st\<lparr>isLoading := True, initialQuerySuggestions := [],
          chatMessages := chatMessages st @
            [expected_user_message ticks query, expected_placeholder ticks]\<rparr>) \<and>
    (\<forall>later response.
       list_all2 (\<lambda>m m'. m' = (if msg_id m = msg_id (expected_placeholder ticks)
                               then expected_resolved ticks response else m))
         (chatMessages later)
         (chatMessages (handleSendMessage_settle (expected_placeholder ticks)
            (Fulfilled response) later))) \<and>
    (\<forall>response.
       handleSendMessage_request service query st = Fulfilled response \<and>
       list_all (\<lambda>m. msg_id m \<noteq> msg_id (expected_placeholder ticks)) (chatMessages st) \<longrightarrow>
       chatMessages (handleSendMessage apiKey service ticks query st) =
         chatMessages st @ [expected_user_message ticks query, expected_resolved ticks response])"
proof (intro conjI allI impI)
  show "handleSendMessage_start apiKey ticks query st =
      (Some (expected_placeholder ticks),
       st\<lparr>isLoading := True, initialQuerySuggestions := [],
          chatMessages := chatMessages st @
            [expected_user_message ticks query, expected_placeholder ticks]\<rparr>)"
    by (rule start_accepted [OF assms])
next
  fix later response
  show "list_all2 (\<lambda>m m'. m' = (if msg_id m = msg_id (expected_placeholder ticks)
                               then expected_resolved ticks response else m))
         (chatMessages later)
         (chatMessages (handleSendMessage_settle (expected_placeholder ticks)
            (Fulfilled response) later))"
    by (simp add: settle_fulfilled list_all2_map_same)
next
  fix response
  assume a: "handleSendMessage_request service query st = Fulfilled response \<and>
       list_all (\<lambda>m. msg_id m \<noteq> msg_id (expected_placeholder ticks)) (chatMessages st)"
  then show "chatMessages (handleSendMessage apiKey service ticks query st) =
         chatMessages st @ [expected_user_message ticks query, expected_resolved ticks response]"
    using user_id_differs [of ticks query]
    by (simp add: handleSendMessage_def start_accepted [OF assms] settle_fulfilled
        map_replace_fresh)
qed

text \<open>C5, on the welcomed first render with a service that answers.\<close>

theorem send_message_success_witness:
  "chatMessages (handleSendMessage (Some ''key'') sample_service sample_ticks ''What is x?''
      welcomed_state) =
     chatMessages welcomed_state @
       [expected_user_message sample_ticks ''What is x?'',
        expected_resolved sample_ticks \<lparr>resp_text = Some ''X is ...'', urlContextMetadata = None\<rparr>] \<and>
   msg_text (expected_user_message sample_ticks ''What is x?'') = ''What is x?'' \<and>
   msg_text (expected_resolved sample_ticks
      \<lparr>resp_text = Some ''X is ...'', urlContextMetadata = None\<rparr>) = ''X is ...'' \<and>
   msg_isLoading (expected_resolved sample_ticks
      \<lparr>resp_text = Some ''X is ...'', urlContextMetadata = None\<rparr>) = Some False \<and>
   length (chatMessages (handleSendMessage (Some ''key'') sample_service sample_ticks ''What is x?''
      welcomed_state)) = length (chatMessages welcomed_state) + 2"
proof -
  let ?r = "\<lparr>resp_text = Some ''X is ...'', urlContextMetadata = None\<rparr>"
  have q: "trim ''What is x?'' \<noteq> []" by code_simp
  have idle: "\<not> isLoading welcomed_state" "\<not> isFetchingSuggestions welcomed_state"
    by code_simp+
  have key: "truthy (Some ''key'')" by code_simp
  have answer: "handleSendMessage_request sample_service ''What is x?'' welcomed_state = Fulfilled ?r"
    by (simp add: handleSendMessage_request_def sample_service_def)
  have fresh: "list_all (\<lambda>m. msg_id m \<noteq> msg_id (expected_placeholder sample_ticks))
      (chatMessages welcomed_state)"
    by code_simp
  note main = send_message_success [where query = "''What is x?''" and st = welcomed_state
      and apiKey = "Some ''key''" and ticks = sample_ticks and service = sample_service,
      OF q idle key]
  from main [THEN conjunct2, THEN conjunct2, THEN spec, THEN mp, OF conjI [OF answer fresh]]
  have log: "chatMessages (handleSendMessage (Some ''key'') sample_service sample_ticks ''What is x?''
      welcomed_state) =
     chatMessages welcomed_state @
       [expected_user_message sample_ticks ''What is x?'', expected_resolved sample_ticks ?r]" .
  have t1: "msg_text (expected_user_message sample_ticks ''What is x?'') = ''What is x?''"
    by (simp add: expected_user_message_def)
  have t2: "msg_text (expected_resolved sample_ticks ?r) = ''X is ...''"
    by (simp add: expected_resolved_def)
  have t3: "msg_isLoading (expected_resolved sample_ticks ?r) = Some False"
    by (simp add: expected_resolved_def)
  have len: "length (chatMessages (handleSendMessage (Some ''key'') sample_service sample_ticks
      ''What is x?'' welcomed_state)) = length (chatMessages welcomed_state) + 2"
    unfolding log by simp
  from log t1 t2 t3 len show ?thesis by (intro conjI)
qed

text \<open>
  Let the query be accepted as in C5. When the request is rejected with anything but
  \<^verbatim>\<open>undefined\<close> or \<^verbatim>\<open>null\<close>, on whatever log is current then, each entry with the
  placeholder's id becomes a system message whose text is \<^verbatim>\<open>Error: \<close> followed by the failure
  reason (the message of the thrown value, or a default when it has none) with
  \<^verbatim>\<open>isLoading = false\<close>, every other entry stays as it is, no entry is added, and the in-flight
  flag is cleared. When nothing else touched the log and no earlier entry has the placeholder's
  id, the log at the end is the log before followed by the user message and the failed message.
\<close>

lemma send_message_failure:
  assumes "trim query \<noteq> []" and "\<not> isLoading st" and "\<not> isFetchingSuggestions st"
    and "truthy apiKey"
  shows "handleSendMessage_start apiKey ticks query st =
      (Some (expected_placeholder ticks),
       st\<lparr>isLoading := True, initialQuerySuggestions := [],
          chatMessages := chatMessages st @
            [expected_user_message ticks query, expected_placeholder ticks]\<rparr>) \<and>
    (\<forall>later e.
       e \<noteq> Nullish \<longrightarrow>
       list_all2 (\<lambda>m m'. m' = (if msg_id m = msg_id (expected_placeholder ticks)
                               then expected_failed ticks e else m))
         (chatMessages later)
         (chatMessages (handleSendMessage_settle (expected_placeholder ticks) (Rejected e) later)) \<and>
       isLoading (handleSendMessage_settle (expected_placeholder ticks) (Rejected e) later) = False) \<and>
    (\<forall>e.
       e \<noteq> Nullish \<and>
       handleSendMessage_request service query st = Rejected e \<and>
       list_all (\<lambda>m. msg_id m \<noteq> msg_id (expected_placeholder ticks)) (chatMessages st) \<longrightarrow>
       chatMessages (handleSendMessage apiKey service ticks query st) =
         chatMessages st @ [expected_user_message ticks query, expected_failed ticks e] \<and>
       isLoading (handleSendMessage apiKey service ticks query st) = False)"
proof (intro conjI allI impI)
  show "handleSendMessage_start apiKey ticks query st =
      (Some (expected_placeholder ticks),
       st\<lparr>isLoading := True, initialQuerySuggestions := [],
          chatMessages := chatMessages st @
            [expected_user_message ticks query, expected_placeholder ticks]\<rparr>)"
    by (rule start_accepted [OF assms])
next
  fix later e
  assume "e \<noteq> Nullish"
  then show "list_all2 (\<lambda>m m'. m' = (if msg_id m = msg_id (expected_placeholder ticks)
                               then expected_failed ticks e else m))
         (chatMessages later)
         (chatMessages (handleSendMessage_settle (expected_placeholder ticks) (Rejected e) later))"
    by (simp add: settle_rejected list_all2_map_same)
  show "isLoading (handleSendMessage_settle (expected_placeholder ticks) (Rejected e) later) = False"
    by (rule settle_clears)
next
  fix e
  assume a: "e \<noteq> Nullish \<and>
       handleSendMessage_request service query st = Rejected e \<and>
       list_all (\<lambda>m. msg_id m \<noteq> msg_id (expected_placeholder ticks)) (chatMessages st)"
  then show "chatMessages (handleSendMessage apiKey service ticks query st) =
         chatMessages st @ [expected_user_message ticks query, expected_failed ticks e]"
    using user_id_differs [of ticks query]
    by (simp add: handleSendMessage_def start_accepted [OF assms] settle_rejected
        map_replace_fresh)
  show "isLoading (handleSendMessage apiKey service ticks query st) = False"
    by (simp add: handleSendMessage_def start_accepted [OF assms] settle_clears)
qed

text \<open>The same when the request is rejected with \<^verbatim>\<open>undefined\<close> or \<^verbatim>\<open>null\<close>: the log stays
  as the handler left it before the request, placeholder included, and the in-flight flag is
  cleared.\<close>

lemma send_message_failure_unread:
  assumes "trim query \<noteq> []" and "\<not> isLoading st" and "\<not> isFetchingSuggestions st"
    and "truthy apiKey" and "handleSendMessage_request service query st = Rejected Nullish"
  shows "handleSendMessage apiKey service ticks query st =
      st\<lparr>isLoading := False, initialQuerySuggestions := [],
         chatMessages := chatMessages st @
           [expected_user_message ticks query, expected_placeholder ticks]\<rparr>"
  by (simp add: handleSendMessage_def start_accepted [OF assms(1-4)] assms(5) settle_nullish)

text \<open>
  C6 (a defect of the code). C6 says that whenever the request of an accepted query fails, the
  placeholder is replaced by a system message with the failure reason and \<^verbatim>\<open>isLoading = false\<close>.
  On the welcomed first render, with a service that rejects with \<^verbatim>\<open>undefined\<close>, the handler's
  \<^verbatim>\<open>catch\<close> throws while it reads the message of the rejection: the log at the end is the log
  before followed by the user message and the placeholder, still a model message in progress
  with the text \<^verbatim>\<open>Thinking...\<close>, which is not the failed message; the in-flight flag is cleared.
  With a service that rejects with an error, the placeholder is replaced as C6 says.
\<close>

theorem send_message_failure_nullish:
  "chatMessages (handleSendMessage (Some ''key'') nullish_service sample_ticks ''What is x?''
      welcomed_state) =
     chatMessages welcomed_state @
       [expected_user_message sample_ticks ''What is x?'', expected_placeholder sample_ticks] \<and>
   msg_sender (expected_placeholder sample_ticks) = MODEL \<and>
   msg_text (expected_placeholder sample_ticks) = ''Thinking...'' \<and>
   msg_isLoading (expected_placeholder sample_ticks) = Some True \<and>
   expected_placeholder sample_ticks \<noteq> expected_failed sample_ticks Nullish \<and>
   isLoading (handleSendMessage (Some ''key'') nullish_service sample_ticks ''What is x?''
      welcomed_state) = False \<and>
   chatMessages (handleSendMessage (Some ''key'') failing_service sample_ticks ''What is x?''
      welcomed_state) =
     chatMessages welcomed_state @
       [expected_user_message sample_ticks ''What is x?'',
        expected_failed sample_ticks (JsError ''quota exceeded'')] \<and>
   msg_text (expected_failed sample_ticks (JsError ''quota exceeded'')) = ''Error: quota exceeded''"
  by code_simp

section \<open>The suggestion response\<close>

lemma rx_star_dropWhile:
  "k (dropWhile P s) = Some r \<Longrightarrow> rx_star P k s = Some r"
  by (induction s) auto

lemma fence_not_space: "\<not> is_space (CHR 0x60)"
  by (simp add: is_space_def)

lemma fence_not_word: "\<not> is_word (CHR 0x60)"
  by (simp add: is_word_def)

lemma space_not_word: "is_space c \<Longrightarrow> \<not> is_word c"
  by (auto simp: is_space_def is_word_def)

lemma closing_star:
  "rx_star is_space (rx_lit fence (rx_end r)) s =
     (if dropWhile is_space s = fence then Some r else None)"
proof (induction s)
  case Nil
  show ?case by (simp add: rx_lit_def startsWith_def fence_def)
next
  case (Cons c cs)
  show ?case
  proof (cases "is_space c")
    case True
    then have "c \<noteq> CHR 0x60" using fence_not_space by auto
    then have "rx_lit fence (rx_end r) (c # cs) = None"
      by (simp add: rx_lit_def startsWith_def fence_def)
    with True Cons show ?thesis by simp
  next
    case False
    have "rx_lit fence (rx_end r) (c # cs) = (if c # cs = fence then Some r else None)"
      by (auto simp: rx_lit_def startsWith_def fence_def rx_end_def)
    with False show ?thesis by simp
  qed
qed

lemma closing:
  "rx_opt (CHR 0x0A) (rx_star is_space (rx_lit fence (rx_end r))) s =
     (if dropWhile is_space s = fence then Some r else None)"
proof (cases s)
  case Nil
  then show ?thesis by (simp add: rx_opt_def closing_star del: rx_star.simps)
next
  case (Cons x xs)
  have nl: "is_space (CHR 0x0A)" by (simp add: is_space_def)
  show ?thesis
  proof (cases "x = CHR 0x0A")
    case True
    with Cons nl have "dropWhile is_space s = dropWhile is_space xs" by simp
    with Cons True show ?thesis
      by (simp add: rx_opt_def closing_star del: rx_star.simps dropWhile.simps)
  next
    case False
    with Cons show ?thesis
      by (simp add: rx_opt_def closing_star del: rx_star.simps dropWhile.simps)
  qed
qed

lemma lazy_group_found:
  assumes "inner = [] \<or> \<not> is_space (last inner)" "list_all is_space ws"
  shows "rx_lazy_group (\<lambda>group2. rx_opt (CHR 0x0A) (rx_star is_space (rx_lit fence (rx_end group2))))
           captured (inner @ ws @ fence) = Some (captured @ inner)"
  using assms
proof (induction inner arbitrary: captured)
  case Nil
  have d: "dropWhile is_space (ws @ fence) = fence"
    using Nil(2) fence_not_space by (induction ws) (auto simp: fence_def)
  obtain a list where al: "ws @ fence = a # list"
    by (cases "ws @ fence") (auto simp: fence_def)
  have "rx_opt (CHR 0x0A) (rx_star is_space (rx_lit fence (rx_end captured))) (ws @ fence)
          = Some captured"
    by (simp only: closing d) simp
  then show ?case
    by (simp add: al del: rx_star.simps)
next
  case (Cons c cs)
  have ne: "dropWhile is_space ((c # cs) @ ws @ fence) \<noteq> fence"
  proof
    assume eq: "dropWhile is_space ((c # cs) @ ws @ fence) = fence"
    define d where "d = dropWhile is_space (c # cs)"
    from Cons(2) have l: "\<not> is_space (last (c # cs))" by simp
    have dne: "d \<noteq> []"
      unfolding d_def using l
      by (metis dropWhile_eq_Nil_conv last_in_set list.distinct(1))
    have "dropWhile is_space ((c # cs) @ ws @ fence) = d @ ws @ fence"
      unfolding d_def using l
      by (metis dropWhile_append1 last_in_set list.distinct(1))
    with eq have "d @ ws @ fence = fence" by (simp only:)
    then have "length (d @ ws @ fence) = length fence" by (simp only:)
    then have "length d = 0" by simp
    with dne show False by simp
  qed
  have rest: "cs = [] \<or> \<not> is_space (last cs)"
    using Cons(2) by (auto split: if_splits)
  show ?case
    using ne Cons.IH [OF rest Cons(3), of "captured @ [c]"]
    by (simp add: closing)
qed

lemma fence_group2:
  assumes "list_all is_word tag" "list_all is_space ws1" "list_all is_space ws2"
    "inner \<noteq> []" "\<not> is_space (hd inner)" "\<not> is_space (last inner)"
    "ws1 \<noteq> [] \<or> \<not> is_word (hd inner)"
  shows "fenceRegex_group2 (fence @ tag @ ws1 @ inner @ ws2 @ fence) = Some inner"
proof -
  let ?K = "rx_lazy_group
               (\<lambda>group2. rx_opt (CHR 0x0A) (rx_star is_space (rx_lit fence (rx_end group2)))) []"
  have K: "?K (inner @ ws2 @ fence) = Some inner"
    using lazy_group_found [of inner ws2 "[]"] assms by simp
  have hdnl: "hd inner \<noteq> CHR 0x0A"
    using assms(5) by (auto simp: is_space_def)
  have opt: "rx_opt (CHR 0x0A) ?K (inner @ ws2 @ fence) = Some inner"
    using K hdnl assms(4) by (cases inner) (auto simp: rx_opt_def)
  have d2: "dropWhile is_space (ws1 @ inner @ ws2 @ fence) = inner @ ws2 @ fence"
    using assms(2,4,5) by (induction ws1) (auto simp: neq_Nil_conv)
  have sp: "rx_star is_space (rx_opt (CHR 0x0A) ?K) (ws1 @ inner @ ws2 @ fence) = Some inner"
    by (rule rx_star_dropWhile) (simp add: d2 opt)
  have hdnw: "\<not> is_word (hd (ws1 @ inner @ ws2 @ fence))"
    using assms(2,4,7) by (cases ws1) (auto simp: space_not_word)
  have d1: "dropWhile is_word (tag @ ws1 @ inner @ ws2 @ fence) = ws1 @ inner @ ws2 @ fence"
    using assms(1,4) hdnw by (induction tag) (auto simp: neq_Nil_conv dropWhile_eq_self_iff)
  have w: "rx_star is_word (rx_star is_space (rx_opt (CHR 0x0A) ?K))
             (tag @ ws1 @ inner @ ws2 @ fence) = Some inner"
    by (rule rx_star_dropWhile) (simp add: d1 sp)
  show ?thesis
    using w by (simp add: fenceRegex_group2_def rx_lit_def startsWith_def fence_def)
qed

lemma trim_id:
  assumes "s \<noteq> []" "\<not> is_space (hd s)" "\<not> is_space (last s)"
  shows "trim s = s"
proof -
  have "dropWhile is_space s = s"
    using assms(1,2) by (cases s) auto
  moreover have "dropWhile is_space (rev s) = rev s"
    using assms(1,3) by (cases "rev s") (auto simp: last_rev [symmetric] simp del: last_rev)
  ultimately show ?thesis by (simp add: trim_def)
qed

lemma trim_surround:
  assumes "list_all is_space a" "list_all is_space b"
    "x \<noteq> []" "\<not> is_space (hd x)" "\<not> is_space (last x)"
  shows "trim (a @ x @ b) = x"
proof -
  have "dropWhile is_space (a @ x @ b) = dropWhile is_space (x @ b)"
    using assms(1) by (simp add: list_all_iff dropWhile_append2)
  also have "\<dots> = x @ b"
    using assms(3,4) by (cases x) auto
  finally have ahead: "dropWhile is_space (a @ x @ b) = x @ b" .
  have "dropWhile is_space (rev b @ rev x) = dropWhile is_space (rev x)"
    using assms(2) by (intro dropWhile_append2) (simp add: list_all_iff)
  also have "\<dots> = rev x"
    using assms(3,5) by (cases "rev x") (auto simp: last_rev [symmetric] simp del: last_rev)
  finally have behind: "dropWhile is_space (rev b @ rev x) = rev x" .
  show ?thesis
    by (simp add: trim_def ahead behind)
qed

lemma trim_decomp:
  "chunk = takeWhile is_space chunk @ trim chunk @
     rev (takeWhile is_space (rev (dropWhile is_space chunk)))"
proof -
  define d where "d = dropWhile is_space chunk"
  have "d = rev (dropWhile is_space (rev d)) @ rev (takeWhile is_space (rev d))"
    by (metis rev_append rev_rev_ident takeWhile_dropWhile_id)
  moreover have "chunk = takeWhile is_space chunk @ d" by (simp add: d_def)
  ultimately show ?thesis by (simp add: trim_def d_def)
qed

lemma trim_ends:
  assumes "trim chunk \<noteq> []"
  shows "\<not> is_space (hd (trim chunk)) \<and> \<not> is_space (last (trim chunk))"
proof -
  define d where "d = dropWhile is_space chunk"
  define e where "e = dropWhile is_space (rev d)"
  have t: "trim chunk = rev e" by (simp add: trim_def d_def e_def)
  with assms have ene: "e \<noteq> []" by simp
  then have dne: "d \<noteq> []" by (auto simp: e_def)
  have "\<not> is_space (hd e)" using ene unfolding e_def by (rule hd_dropWhile)
  then have l: "\<not> is_space (last (trim chunk))" using ene by (simp add: t last_rev)
  have "\<not> is_space (hd d)" using dne unfolding d_def by (rule hd_dropWhile)
  moreover have "last e = last (rev d)"
    using ene unfolding e_def
    by (metis takeWhile_dropWhile_id last_appendR)
  ultimately have "\<not> is_space (last e)" using dne by (simp add: last_rev)
  then have "\<not> is_space (hd (trim chunk))" using ene by (simp add: t hd_rev)
  with l show ?thesis by simp
qed

lemma takeWhile_all_space: "list_all is_space (takeWhile is_space xs)"
  by (induction xs) auto

lemma jsonStr_fenced:
  assumes "list_all is_word tag" and "trim chunk \<noteq> []" and "\<not> is_word (hd chunk)"
    and "list_all is_space lead" and "list_all is_space trail"
  shows "jsonStr_of (lead @ fence @ tag @ chunk @ fence @ trail) = trim chunk"
proof -
  define ws1 where "ws1 = takeWhile is_space chunk"
  define ws2 where "ws2 = rev (takeWhile is_space (rev (dropWhile is_space chunk)))"
  define inner where "inner = trim chunk"
  have c: "chunk = ws1 @ inner @ ws2"
    unfolding ws1_def ws2_def inner_def by (rule trim_decomp)
  have s1: "list_all is_space ws1" unfolding ws1_def by (rule takeWhile_all_space)
  have s2: "list_all is_space ws2"
    unfolding ws2_def using takeWhile_all_space [of "rev (dropWhile is_space chunk)"]
    by (simp add: list_all_iff)
  have ine: "inner \<noteq> []" using assms(2) by (simp add: inner_def)
  have ends: "\<not> is_space (hd inner)" "\<not> is_space (last inner)"
    using trim_ends [OF assms(2)] by (simp_all add: inner_def)
  have hw: "ws1 \<noteq> [] \<or> \<not> is_word (hd inner)"
  proof (cases "ws1 = []")
    case True
    with c ine have "hd chunk = hd inner" by (metis append_Nil hd_append2)
    with assms(3) show ?thesis by simp
  qed simp
  have g: "fenceRegex_group2 (fence @ tag @ chunk @ fence) = Some inner"
    using fence_group2 [OF assms(1) s1 s2 ine ends hw] by (simp add: c)
  have "trim (lead @ (fence @ tag @ chunk @ fence) @ trail) = fence @ tag @ chunk @ fence"
    using assms(4,5) by (rule trim_surround) (simp_all add: fence_def is_space_def)
  then have whole:
    "trim (lead @ fence @ tag @ chunk @ fence @ trail) = fence @ tag @ chunk @ fence"
    by simp
  have "trim inner = inner" using ine ends by (rule trim_id)
  then show ?thesis
    using g ine by (simp add: jsonStr_of_def whole Let_def inner_def)
qed

lemma jsonStr_unfenced:
  "\<not> startsWith (trim body) fence \<Longrightarrow> jsonStr_of body = trim body"
  by (simp add: jsonStr_of_def fenceRegex_group2_def rx_lit_def Let_def)

lemma only_strings_filter: "map JString (only_strings xs) = filter is_JString xs"
  by (induction xs rule: only_strings.induct) auto

lemma shape_agrees:
  "(case (if json_truthy parsed then json_suggestions parsed else None) of
      Some (JArray xs) \<Rightarrow> f xs | _ \<Rightarrow> g) =
   (case well_shaped parsed of Some xs \<Rightarrow> f xs | None \<Rightarrow> g)"
  by (cases parsed) (auto split: option.splits json.splits)


lemma fence_group2_blank:
  assumes "list_all is_word tag" "list_all is_space ws"
  shows "fenceRegex_group2 (fence @ tag @ ws @ fence) = Some []"
proof -
  let ?K = "rx_lazy_group
               (\<lambda>group2. rx_opt (CHR 0x0A) (rx_star is_space (rx_lit fence (rx_end group2)))) []"
  have K: "?K fence = Some []"
    using lazy_group_found [of "[]" "[]" "[]"] by simp
  have opt: "rx_opt (CHR 0x0A) ?K fence = Some []"
    using K by (simp add: rx_opt_def fence_def)
  have d2: "dropWhile is_space (ws @ fence) = fence"
    using assms(2) fence_not_space by (induction ws) (auto simp: fence_def)
  have sp: "rx_star is_space (rx_opt (CHR 0x0A) ?K) (ws @ fence) = Some []"
    by (rule rx_star_dropWhile) (simp add: d2 opt)
  have hdnw: "\<not> is_word (hd (ws @ fence))"
    using assms(2) fence_not_word by (cases ws) (auto simp: space_not_word fence_def)
  have d1: "dropWhile is_word (tag @ ws @ fence) = ws @ fence"
    using assms(1) hdnw by (induction tag) (auto simp: dropWhile_eq_self_iff fence_def)
  have w: "rx_star is_word (rx_star is_space (rx_opt (CHR 0x0A) ?K)) (tag @ ws @ fence) = Some []"
    by (rule rx_star_dropWhile) (simp add: d1 sp)
  show ?thesis
    using w by (simp add: fenceRegex_group2_def rx_lit_def startsWith_def fence_def)
qed

lemma jsonStr_blank_fence:
  assumes "list_all is_word tag" "list_all is_space ws"
    and "list_all is_space lead" and "list_all is_space trail"
  shows "jsonStr_of (lead @ fence @ tag @ ws @ fence @ trail) = fence @ tag @ ws @ fence"
proof -
  have "trim (lead @ (fence @ tag @ ws @ fence) @ trail) = fence @ tag @ ws @ fence"
    using assms(3,4) by (rule trim_surround) (simp_all add: fence_def is_space_def)
  then have whole: "trim (lead @ fence @ tag @ ws @ fence @ trail) = fence @ tag @ ws @ fence"
    by simp
  show ?thesis
    by (simp add: jsonStr_of_def whole Let_def fence_group2_blank [OF assms(1,2)])
qed

lemma settle_fulfilled_suggestions:
  "fetchAndSetInitialSuggestions_settle JSON_parse ticks (Fulfilled text) st =
     (snd (suggestions_from_text JSON_parse ticks text st))
       \<lparr>initialQuerySuggestions := take 4 (fst (suggestions_from_text JSON_parse ticks text st)),
        isFetchingSuggestions := False\<rparr>"
  by (simp add: fetchAndSetInitialSuggestions_settle_def split: prod.splits)

lemma from_text_nonempty:
  "body \<noteq> [] \<Longrightarrow>
   suggestions_from_text JSON_parse ticks (Some body) st =
     (case JSON_parse (jsonStr_of body) of
        None \<Rightarrow>
          ([], st\<lparr>chatMessages := chatMessages st @
             [plain_message (''sys-err-suggestion-parse-'' @ show_nat (ticks 0))
                suggestion_parse_text SYSTEM (ticks 1)]\<rparr>)
      | Some parsed \<Rightarrow>
          (case well_shaped parsed of
             Some xs \<Rightarrow> (only_strings xs, st)
           | None \<Rightarrow>
               ([], st\<lparr>chatMessages := chatMessages st @
                  [plain_message (''sys-err-suggestion-fmt-'' @ show_nat (ticks 0))
                     suggestion_format_text SYSTEM (ticks 1)]\<rparr>)))"
  by (simp add: suggestions_from_text_def shape_agrees split: option.splits)

text \<open>
  C7 (as stated, refuted). The claim says that for every response body a fence is stripped
  before parsing, and that any parse failure or malformed shape yields a single system message.
  For the body that is a fence with the tag \<^verbatim>\<open>json\<close> and nothing inside, the string handed to
  the parser is the whole body, fence included. For the empty body, which no parser accepts,
  nothing is parsed and no message is appended.
\<close>

theorem suggestions_from_response_counterexample:
  "jsonStr_of (fence @ ''json'' @ [CHR 0x0A] @ fence) = fence @ ''json'' @ [CHR 0x0A] @ fence \<and>
   jsonStr_of (fence @ ''json'' @ [CHR 0x0A] @ fence) \<noteq> [] \<and>
   rejecting_JSON_parse (jsonStr_of []) = None \<and>
   chatMessages (fetchAndSetInitialSuggestions_settle rejecting_JSON_parse sample_ticks
      (Fulfilled (Some [])) welcomed_state) = chatMessages welcomed_state"
  by code_simp

text \<open>
  C7 (amended). A body that is, between white space, a fence block with a tag of word characters
  (the longest run of them after the opening fence) and a content that is not blank is parsed as
  its trimmed content; a fence block whose content is blank is parsed as it is, fence included; a
  body that does not start with a fence once trimmed is parsed trimmed. For a body that is not
  empty: when the parser fails, the suggestion list is empty and the one message
  \<^verbatim>\<open>Error parsing suggestions from AI.\<close> is appended; when the parsed value is not an object with a \<^verbatim>\<open>suggestions\<close> sequence, the list is
  empty and the one message \<^verbatim>\<open>Received suggestions in an unexpected format.\<close> is appended;
  otherwise the list is the first four strings among the elements of the sequence, in their
  order, and nothing is appended. For an absent or empty body the list is empty and nothing is
  appended.
\<close>

theorem suggestions_from_response:
  "(list_all is_space lead \<and> list_all is_space trail \<and>
    list_all is_word tag \<and> trim chunk \<noteq> [] \<and> \<not> is_word (hd chunk) \<longrightarrow>
      jsonStr_of (lead @ fence @ tag @ chunk @ fence @ trail) = trim chunk) \<and>
   (list_all is_space lead \<and> list_all is_space trail \<and>
    list_all is_word tag \<and> list_all is_space ws \<longrightarrow>
      jsonStr_of (lead @ fence @ tag @ ws @ fence @ trail) = fence @ tag @ ws @ fence) \<and>
   (\<not> startsWith (trim body) fence \<longrightarrow> jsonStr_of body = trim body) \<and>
   (body \<noteq> [] \<and> JSON_parse (jsonStr_of body) = None \<longrightarrow>
      initialQuerySuggestions
        (fetchAndSetInitialSuggestions_settle JSON_parse ticks (Fulfilled (Some body)) st) = [] \<and>
      chatMessages
        (fetchAndSetInitialSuggestions_settle JSON_parse ticks (Fulfilled (Some body)) st) =
        chatMessages st @
          [plain_message (''sys-err-suggestion-parse-'' @ show_nat (ticks 0))
             ''Error parsing suggestions from AI.'' SYSTEM (ticks 1)]) \<and>
   (\<forall>parsed.
      body \<noteq> [] \<and> JSON_parse (jsonStr_of body) = Some parsed \<and> well_shaped parsed = None \<longrightarrow>
      initialQuerySuggestions
        (fetchAndSetInitialSuggestions_settle JSON_parse ticks (Fulfilled (Some body)) st) = [] \<and>
      chatMessages
        (fetchAndSetInitialSuggestions_settle JSON_parse ticks (Fulfilled (Some body)) st) =
        chatMessages st @
          [plain_message (''sys-err-suggestion-fmt-'' @ show_nat (ticks 0))
             ''Received suggestions in an unexpected format.'' SYSTEM (ticks 1)]) \<and>
   (\<forall>parsed xs.
      body \<noteq> [] \<and> JSON_parse (jsonStr_of body) = Some parsed \<and> well_shaped parsed = Some xs \<longrightarrow>
      map JString (initialQuerySuggestions
        (fetchAndSetInitialSuggestions_settle JSON_parse ticks (Fulfilled (Some body)) st)) =
        take 4 (filter is_JString xs) \<and>
      chatMessages
        (fetchAndSetInitialSuggestions_settle JSON_parse ticks (Fulfilled (Some body)) st) =
        chatMessages st) \<and>
   (reply = None \<or> reply = Some [] \<longrightarrow>
      initialQuerySuggestions
        (fetchAndSetInitialSuggestions_settle JSON_parse ticks (Fulfilled reply) st) = [] \<and>
      chatMessages
        (fetchAndSetInitialSuggestions_settle JSON_parse ticks (Fulfilled reply) st) =
        chatMessages st)"
proof -
  have a: "list_all is_space lead \<and> list_all is_space trail \<and>
    list_all is_word tag \<and> trim chunk \<noteq> [] \<and> \<not> is_word (hd chunk) \<longrightarrow>
      jsonStr_of (lead @ fence @ tag @ chunk @ fence @ trail) = trim chunk"
    using jsonStr_fenced by blast
  have b: "list_all is_space lead \<and> list_all is_space trail \<and>
    list_all is_word tag \<and> list_all is_space ws \<longrightarrow>
      jsonStr_of (lead @ fence @ tag @ ws @ fence @ trail) = fence @ tag @ ws @ fence"
    using jsonStr_blank_fence by blast
  have c: "\<not> startsWith (trim body) fence \<longrightarrow> jsonStr_of body = trim body"
    using jsonStr_unfenced by blast
  have d: "body \<noteq> [] \<and> JSON_parse (jsonStr_of body) = None \<longrightarrow>
      initialQuerySuggestions
        (fetchAndSetInitialSuggestions_settle JSON_parse ticks (Fulfilled (Some body)) st) = [] \<and>
      chatMessages
        (fetchAndSetInitialSuggestions_settle JSON_parse ticks (Fulfilled (Some body)) st) =
        chatMessages st @
          [plain_message (''sys-err-suggestion-parse-'' @ show_nat (ticks 0))
             ''Error parsing suggestions from AI.'' SYSTEM (ticks 1)]"
    by (simp add: settle_fulfilled_suggestions from_text_nonempty suggestion_parse_text_def)
  have e: "\<forall>parsed.
      body \<noteq> [] \<and> JSON_parse (jsonStr_of body) = Some parsed \<and> well_shaped parsed = None \<longrightarrow>
      initialQuerySuggestions
        (fetchAndSetInitialSuggestions_settle JSON_parse ticks (Fulfilled (Some body)) st) = [] \<and>
      chatMessages
        (fetchAndSetInitialSuggestions_settle JSON_parse ticks (Fulfilled (Some body)) st) =
        chatMessages st @
          [plain_message (''sys-err-suggestion-fmt-'' @ show_nat (ticks 0))
             ''Received suggestions in an unexpected format.'' SYSTEM (ticks 1)]"
    by (simp add: settle_fulfilled_suggestions from_text_nonempty suggestion_format_text_def)
  have f: "\<forall>parsed xs.
      body \<noteq> [] \<and> JSON_parse (jsonStr_of body) = Some parsed \<and> well_shaped parsed = Some xs \<longrightarrow>
      map JString (initialQuerySuggestions
        (fetchAndSetInitialSuggestions_settle JSON_parse ticks (Fulfilled (Some body)) st)) =
        take 4 (filter is_JString xs) \<and>
      chatMessages
        (fetchAndSetInitialSuggestions_settle JSON_parse ticks (Fulfilled (Some body)) st) =
        chatMessages st"
    by (simp add: settle_fulfilled_suggestions from_text_nonempty take_map
        only_strings_filter [symmetric])
  have g: "reply = None \<or> reply = Some [] \<longrightarrow>
      initialQuerySuggestions
        (fetchAndSetInitialSuggestions_settle JSON_parse ticks (Fulfilled reply) st) = [] \<and>
      chatMessages
        (fetchAndSetInitialSuggestions_settle JSON_parse ticks (Fulfilled reply) st) =
        chatMessages st"
    by (auto simp: settle_fulfilled_suggestions suggestions_from_text_def)
  from a b c d e f g show ?thesis by blast
qed


text \<open>C7 (amended), on a fenced body with a tag whose array holds a number among six
  elements, and on a body that does not parse.\<close>

theorem suggestions_from_response_witness:
  "jsonStr_of sample_body = sample_json \<and>
   initialQuerySuggestions (fetchAndSetInitialSuggestions_settle sample_JSON_parse sample_ticks
      (Fulfilled (Some sample_body)) welcomed_state) = [''a'', ''b'', ''c'', ''d''] \<and>
   chatMessages (fetchAndSetInitialSuggestions_settle sample_JSON_parse sample_ticks
      (Fulfilled (Some sample_body)) welcomed_state) = chatMessages welcomed_state \<and>
   chatMessages (fetchAndSetInitialSuggestions_settle sample_JSON_parse sample_ticks
      (Fulfilled (Some ''not json'')) welcomed_state) =
     chatMessages welcomed_state @
       [plain_message ''sys-err-suggestion-parse-1000'' ''Error parsing suggestions from AI.''
          SYSTEM 1001]"
proof -
  let ?xs = "[JString ''a'', JNumber 1, JString ''b'', JString ''c'', JString ''d'', JString ''e'']"
  let ?st1 = "fetchAndSetInitialSuggestions_settle sample_JSON_parse sample_ticks
      (Fulfilled (Some sample_body)) welcomed_state"
  let ?st2 = "fetchAndSetInitialSuggestions_settle sample_JSON_parse sample_ticks
      (Fulfilled (Some ''not json'')) welcomed_state"
  note good = suggestions_from_response [where lead = "'' ''" and trail = "[CHR 0x0A]" and tag = "''json''"
      and chunk = "[CHR 0x0A] @ sample_json @ [CHR 0x0A]" and ws = "[]" and body = sample_body
      and JSON_parse = sample_JSON_parse and ticks = sample_ticks and st = welcomed_state
      and reply = None]
  note bad = suggestions_from_response [where lead = "'' ''" and trail = "[CHR 0x0A]" and tag = "''json''"
      and chunk = "[CHR 0x0A] @ sample_json @ [CHR 0x0A]" and ws = "[]" and body = "''not json''"
      and JSON_parse = sample_JSON_parse and ticks = sample_ticks and st = welcomed_state
      and reply = None]
  have tag: "list_all is_word ''json''" by code_simp
  have chunk: "trim ([CHR 0x0A] @ sample_json @ [CHR 0x0A]) = sample_json" by code_simp
  have chunk_ne: "trim ([CHR 0x0A] @ sample_json @ [CHR 0x0A]) \<noteq> []" by code_simp
  have hd_chunk: "\<not> is_word (hd ([CHR 0x0A] @ sample_json @ [CHR 0x0A]))" by code_simp
  have body: "'' '' @ fence @ ''json'' @ ([CHR 0x0A] @ sample_json @ [CHR 0x0A]) @ fence @ [CHR 0x0A]
      = sample_body"
    by (simp add: sample_body_def)
  have edges: "list_all is_space '' ''" "list_all is_space [CHR 0x0A]" by code_simp+
  have body_ne: "sample_body \<noteq> []" by code_simp
  have js: "jsonStr_of sample_body = sample_json"
    using good [THEN conjunct1] edges tag chunk chunk_ne hd_chunk unfolding body by (simp only: simp_thms)
  have parsed: "sample_JSON_parse (jsonStr_of sample_body) = Some (JObject [(''suggestions'', JArray ?xs)])"
    unfolding js by (simp add: sample_JSON_parse_def)
  have shape: "well_shaped (JObject [(''suggestions'', JArray ?xs)]) = Some ?xs"
    by simp
  have kept: "take 4 (filter is_JString ?xs) = map JString [''a'', ''b'', ''c'', ''d'']"
    by simp
  from good [THEN conjunct2, THEN conjunct2, THEN conjunct2, THEN conjunct2, THEN conjunct2,
      THEN conjunct1, THEN spec, THEN spec, THEN mp, OF conjI [OF body_ne conjI [OF parsed shape]]]
  have s1: "map JString (initialQuerySuggestions ?st1) = take 4 (filter is_JString ?xs)"
    and s2: "chatMessages ?st1 = chatMessages welcomed_state"
    by (rule conjunct1, rule conjunct2)
  have inj: "inj JString" by (simp add: inj_def)
  from s1 have "map JString (initialQuerySuggestions ?st1) = map JString [''a'', ''b'', ''c'', ''d'']"
    unfolding kept .
  with inj have s1': "initialQuerySuggestions ?st1 = [''a'', ''b'', ''c'', ''d'']"
    by (simp only: inj_map_eq_map)
  have plain_ne: "''not json'' \<noteq> []" by simp
  have unparsed: "sample_JSON_parse (jsonStr_of ''not json'') = None" by code_simp
  have ticks: "show_nat (sample_ticks 0) = ''1000''" "sample_ticks 1 = 1001" by code_simp+
  from bad [THEN conjunct2, THEN conjunct2, THEN conjunct2, THEN conjunct1, THEN mp,
      OF conjI [OF plain_ne unparsed], THEN conjunct2]
  have s3: "chatMessages ?st2 =
     chatMessages welcomed_state @
       [plain_message ''sys-err-suggestion-parse-1000'' ''Error parsing suggestions from AI.''
          SYSTEM 1001]"
    unfolding ticks by simp
  from js s1' s2 s3 show ?thesis by (intro conjI)
qed


end
